theory Spec2Isabelle
  imports Complex_Main
begin

section \<open>Numbers\<close>

text \<open>
  The program computes with JavaScript numbers.  A finite number is modelled by the real
  it denotes, and the operations below are exact on finite values; the rounding and the
  overflow of the binary format are added explicitly (\<open>round_double\<close>, \<open>js_round\<close>) in
  the functions where they can change the kind of the result.  The three non-finite values
  are kept apart, because several functions of the program divide by a quantity that can
  be zero: in JavaScript such a division does not fail, it yields \<open>Infinity\<close>,
  \<open>-Infinity\<close> or \<open>NaN\<close>, and these values then flow through \<open>Math.min\<close>, \<open>Math.max\<close>
  and the comparisons.  The sign of a zero is not tracked: a zero divisor is taken as
  \<open>+0\<close>.
\<close>

datatype jsnum = Fin real | PInf | NInf | NaN


fun js_neg :: "jsnum \<Rightarrow> jsnum" where
  "js_neg (Fin a) = Fin (- a)"
| "js_neg PInf = NInf"
| "js_neg NInf = PInf"
| "js_neg NaN = NaN"

fun js_add :: "jsnum \<Rightarrow> jsnum \<Rightarrow> jsnum" where
  "js_add (Fin a) (Fin b) = Fin (a + b)"
| "js_add (Fin a) PInf = PInf"
| "js_add (Fin a) NInf = NInf"
| "js_add PInf (Fin b) = PInf"
| "js_add PInf PInf = PInf"
| "js_add PInf NInf = NaN"
| "js_add NInf (Fin b) = NInf"
| "js_add NInf PInf = NaN"
| "js_add NInf NInf = NInf"
| "js_add NaN b = NaN"
| "js_add a NaN = NaN"

definition js_sub :: "jsnum \<Rightarrow> jsnum \<Rightarrow> jsnum" where
  "js_sub a b = js_add a (js_neg b)"

fun js_mul :: "jsnum \<Rightarrow> jsnum \<Rightarrow> jsnum" where
  "js_mul (Fin a) (Fin b) = Fin (a * b)"
| "js_mul (Fin a) PInf = (if a = 0 then NaN else if 0 < a then PInf else NInf)"
| "js_mul (Fin a) NInf = (if a = 0 then NaN else if 0 < a then NInf else PInf)"
| "js_mul PInf (Fin b) = (if b = 0 then NaN else if 0 < b then PInf else NInf)"
| "js_mul NInf (Fin b) = (if b = 0 then NaN else if 0 < b then NInf else PInf)"
| "js_mul PInf PInf = PInf"
| "js_mul PInf NInf = NInf"
| "js_mul NInf PInf = NInf"
| "js_mul NInf NInf = PInf"
| "js_mul NaN b = NaN"
| "js_mul a NaN = NaN"

fun js_div :: "jsnum \<Rightarrow> jsnum \<Rightarrow> jsnum" where
  "js_div (Fin a) (Fin b) =
     (if b \<noteq> 0 then Fin (a / b)
      else if a = 0 then NaN else if 0 < a then PInf else NInf)"
| "js_div (Fin a) PInf = Fin 0"
| "js_div (Fin a) NInf = Fin 0"
| "js_div PInf (Fin b) = (if 0 \<le> b then PInf else NInf)"
| "js_div NInf (Fin b) = (if 0 \<le> b then NInf else PInf)"
| "js_div PInf PInf = NaN"
| "js_div PInf NInf = NaN"
| "js_div NInf PInf = NaN"
| "js_div NInf NInf = NaN"
| "js_div NaN b = NaN"
| "js_div a NaN = NaN"

text \<open>Comparisons: every comparison with \<open>NaN\<close> is false.\<close>

fun js_lt :: "jsnum \<Rightarrow> jsnum \<Rightarrow> bool" where
  "js_lt (Fin a) (Fin b) = (a < b)"
| "js_lt (Fin a) PInf = True"
| "js_lt (Fin a) NInf = False"
| "js_lt PInf b = False"
| "js_lt NInf (Fin b) = True"
| "js_lt NInf PInf = True"
| "js_lt NInf NInf = False"
| "js_lt NInf NaN = False"
| "js_lt NaN b = False"
| "js_lt (Fin a) NaN = False"

definition js_gt :: "jsnum \<Rightarrow> jsnum \<Rightarrow> bool" where
  "js_gt a b = js_lt b a"

definition js_seq :: "jsnum \<Rightarrow> jsnum \<Rightarrow> bool" where
  \<comment> \<open>the operator \<open>===\<close> on numbers\<close>
  "js_seq a b = (a \<noteq> NaN \<and> a = b)"

definition js_or :: "jsnum \<Rightarrow> jsnum \<Rightarrow> jsnum" where
  \<comment> \<open>\<open>a || b\<close> on numbers: zero and \<open>NaN\<close> are falsy\<close>
  "js_or a b = (if a = Fin 0 \<or> a = NaN then b else a)"

definition Math_min :: "jsnum \<Rightarrow> jsnum \<Rightarrow> jsnum" where
  "Math_min a b = (if a = NaN \<or> b = NaN then NaN else if js_lt b a then b else a)"

definition Math_max :: "jsnum \<Rightarrow> jsnum \<Rightarrow> jsnum" where
  "Math_max a b = (if a = NaN \<or> b = NaN then NaN else if js_lt a b then b else a)"

fun Math_round :: "jsnum \<Rightarrow> jsnum" where
  "Math_round (Fin a) = Fin (of_int \<lfloor>a + 1 / 2\<rfloor>)"
| "Math_round PInf = PInf"
| "Math_round NInf = NInf"
| "Math_round NaN = NaN"

fun Math_tan :: "jsnum \<Rightarrow> jsnum" where
  "Math_tan (Fin a) = Fin (tan a)"
| "Math_tan PInf = NaN"
| "Math_tan NInf = NaN"
| "Math_tan NaN = NaN"

fun Math_atan :: "jsnum \<Rightarrow> jsnum" where
  "Math_atan (Fin a) = Fin (arctan a)"
| "Math_atan PInf = Fin (pi / 2)"
| "Math_atan NInf = Fin (- (pi / 2))"
| "Math_atan NaN = NaN"

fun Math_hypot :: "jsnum \<Rightarrow> jsnum \<Rightarrow> jsnum" where
  "Math_hypot (Fin a) (Fin b) = Fin (sqrt (a * a + b * b))"
| "Math_hypot PInf b = PInf"
| "Math_hypot NInf b = PInf"
| "Math_hypot (Fin a) PInf = PInf"
| "Math_hypot (Fin a) NInf = PInf"
| "Math_hypot NaN PInf = PInf"
| "Math_hypot NaN NInf = PInf"
| "Math_hypot NaN (Fin b) = NaN"
| "Math_hypot NaN NaN = NaN"
| "Math_hypot (Fin a) NaN = NaN"


fun Math_exp :: "jsnum \<Rightarrow> jsnum" where
  "Math_exp (Fin a) = Fin (exp a)"
| "Math_exp PInf = PInf"
| "Math_exp NInf = Fin 0"
| "Math_exp NaN = NaN"

text \<open>
  Where a rounded value decides the shape of a result (its floor is taken, or it is a
  divisor that rounding can make zero), the rounding of the double operation is modelled:
  \<open>round_double x\<close> is the binary64 number nearest to \<open>x\<close>, ties to the even significand,
  with gradual underflow (below \<open>2\<^sup>-\<^sup>1\<^sup>0\<^sup>2\<^sup>2\<close> the spacing is \<open>2\<^sup>-\<^sup>1\<^sup>0\<^sup>7\<^sup>4\<close>, and a value of
  magnitude at most \<open>2\<^sup>-\<^sup>1\<^sup>0\<^sup>7\<^sup>5\<close> rounds to zero).  \<open>round_double\<close> has no largest exponent;
  overflow is added by \<open>to_double\<close>: a rounded value beyond the largest double
  \<open>max_double\<close> becomes \<open>Infinity\<close> or \<open>-Infinity\<close>.  \<open>js_round\<close> is the rounding of the
  result of one arithmetic operation, and \<open>is_double\<close> says that a real is the value of a
  finite double.
\<close>

definition round_half_even :: "real \<Rightarrow> int" where
  "round_half_even x =
     (let f = \<lfloor>x\<rfloor>; d = x - of_int f in
      if d < 1 / 2 then f else if 1 / 2 < d then f + 1 else if even f then f else f + 1)"

definition round_double :: "real \<Rightarrow> real" where
  "round_double x =
     (if x = 0 then 0
      else (let e = max \<lfloor>log 2 \<bar>x\<bar>\<rfloor> (- 1022);
                q = 2 powr (of_int (e - 52))
            in of_int (round_half_even (x / q)) * q))"





definition Math_PI :: jsnum where
  "Math_PI = Fin pi"

section \<open>Utility functions\<close>

definition DEFAULT_CAMERA_HFOV_DEG :: jsnum where
  "DEFAULT_CAMERA_HFOV_DEG = Fin 60"

definition degToRad :: "jsnum \<Rightarrow> jsnum" where
  "degToRad deg = js_div (js_mul deg Math_PI) (Fin 180)"

definition radToDeg :: "jsnum \<Rightarrow> jsnum" where
  "radToDeg rad = js_div (js_mul rad (Fin 180)) Math_PI"

definition aspect_of :: "jsnum \<Rightarrow> jsnum \<Rightarrow> jsnum" where
  \<comment> \<open>the local \<open>aspect\<close> of \<open>estimatePixelsPerDegree\<close>\<close>
  "aspect_of width height =
     (if js_gt width (Fin 0) \<and> js_gt height (Fin 0) then js_div width height
      else js_div (Fin 16) (Fin 9))"

definition estimatePixelsPerDegree :: "jsnum \<Rightarrow> jsnum \<Rightarrow> jsnum \<Rightarrow> jsnum" where
  "estimatePixelsPerDegree width height hfovDeg =
     (let aspect = aspect_of width height;
          hfovRad = degToRad hfovDeg;
          vfovRad = js_mul (Fin 2) (Math_atan (js_div (Math_tan (js_div hfovRad (Fin 2))) aspect));
          vfovDeg = radToDeg vfovRad;
          ppdX = js_div width hfovDeg;
          ppdY = js_div height vfovDeg
      in Math_max (Fin 1) (Math_min ppdX ppdY))"

definition vfov_deg :: "real \<Rightarrow> real \<Rightarrow> real" where
  \<comment> \<open>the value of the local \<open>vfovDeg\<close> for a finite horizontal field of view and aspect\<close>
  "vfov_deg hfov a = 2 * arctan (tan (hfov * pi / 180 / 2) / a) * 180 / pi"

section \<open>Age presets\<close>

record cone_sensitivity =
  cone_L :: real
  cone_M :: real
  cone_S :: real

record age_preset =
  label :: string
  spatialCutoffCPD :: real
  peakSensitivityCPD :: real
  contrastSensitivityPeak :: real
  contrastSlope :: real
  temporalIntegrationMs :: real
  coneSensitivity :: cone_sensitivity
  pupilDiameterMm :: real
  scatteringFactor :: real
  accommodationRange :: real
  centralFieldRadiusDeg :: real
  peripheralSuppression :: real
  lateralInhibition :: real
  photoreceptorNoise :: real
  description :: string

definition preset_1 :: age_preset where
  "preset_1 = \<lparr>
     label = ''1 month'',
     spatialCutoffCPD = 1.5,
     peakSensitivityCPD = 0.5,
     contrastSensitivityPeak = 10,
     contrastSlope = 0.65,
     temporalIntegrationMs = 200,
     coneSensitivity = \<lparr> cone_L = 0.6, cone_M = 0.4, cone_S = 0.15 \<rparr>,
     pupilDiameterMm = 2.5,
     scatteringFactor = 0.3,
     accommodationRange = 0.2,
     centralFieldRadiusDeg = 10,
     peripheralSuppression = 0.7,
     lateralInhibition = 0.3,
     photoreceptorNoise = 0.08,
     description = ''Visual acuity ~20/400 (1.5 cpd cutoff). Minimal blue cone function. High optical scatter. Best focus at 8-10 inches.'' \<rparr>"

definition preset_2 :: age_preset where
  "preset_2 = \<lparr>
     label = ''2 months'',
     spatialCutoffCPD = 2.5,
     peakSensitivityCPD = 1.0,
     contrastSensitivityPeak = 40,
     contrastSlope = 0.75,
     temporalIntegrationMs = 150,
     coneSensitivity = \<lparr> cone_L = 0.85, cone_M = 0.65, cone_S = 0.45 \<rparr>,
     pupilDiameterMm = 3.0,
     scatteringFactor = 0.2,
     accommodationRange = 0.4,
     centralFieldRadiusDeg = 15,
     peripheralSuppression = 0.5,
     lateralInhibition = 0.5,
     photoreceptorNoise = 0.05,
     description = ''Visual acuity ~20/150 (2.5 cpd). S-cones functional. Contrast sensitivity 4-5x improved. Beginning accommodation.'' \<rparr>"

definition preset_3 :: age_preset where
  "preset_3 = \<lparr>
     label = ''3 months'',
     spatialCutoffCPD = 4.0,
     peakSensitivityCPD = 1.5,
     contrastSensitivityPeak = 60,
     contrastSlope = 0.85,
     temporalIntegrationMs = 100,
     coneSensitivity = \<lparr> cone_L = 0.95, cone_M = 0.85, cone_S = 0.7 \<rparr>,
     pupilDiameterMm = 3.5,
     scatteringFactor = 0.1,
     accommodationRange = 0.6,
     centralFieldRadiusDeg = 20,
     peripheralSuppression = 0.3,
     lateralInhibition = 0.7,
     photoreceptorNoise = 0.02,
     description = ''Visual acuity 20/60 (4.0 cpd). Good color discrimination. Smooth pursuit tracking. Emerging stereopsis.'' \<rparr>"

definition AGE_PRESETS :: "int \<rightharpoonup> age_preset" where
  \<comment> \<open>the table, as a map from the age key; a key without an entry reads as \<open>undefined\<close>\<close>
  "AGE_PRESETS = [1 \<mapsto> preset_1, 2 \<mapsto> preset_2, 3 \<mapsto> preset_3]"

section \<open>Gaussian kernels\<close>

text \<open>
  \<open>generateGaussianKernel1D\<close> takes a finite number \<open>sigmaPx\<close> and returns the kernel, an
  array of numbers.  The first loop of the source runs \<open>i\<close> from \<open>-radius\<close> to \<open>radius\<close>,
  stores the sample \<open>Math.exp(-(i * i) / twoSigma2)\<close> at index \<open>i + radius\<close> and adds it to
  the running sum; the second loop divides every entry by the sum.  The array and the sum
  are the variables \<open>kern\<close> and \<open>acc\<close> here.

  Two products are rounded as the double operations round them: \<open>sigmaPx * 3\<close>, whose
  floor is the radius, and \<open>2 * sigmaPx * sigmaPx\<close>, the divisor of the exponent, which
  underflows to zero for a small enough \<open>sigmaPx\<close>.  The quotient by \<open>twoSigma2\<close> follows the
  rules of \<open>jsnum\<close>, so a zero divisor gives \<open>-Infinity\<close> or \<open>NaN\<close> as in the source.  The
  samples, their sum and the normalised entries are exact values here; the rounding of
  these operations and of the stores into the \<open>Float32Array\<close> is not modelled, and what
  is stated about them allows a tolerance.
\<close>

definition kernel_radius :: "real \<Rightarrow> int" where
  \<comment> \<open>the local \<open>radius\<close>\<close>
  "kernel_radius sigmaPx = max 1 \<lfloor>round_double (sigmaPx * 3)\<rfloor>"

definition kernel_twoSigma2 :: "real \<Rightarrow> real" where
  \<comment> \<open>the local \<open>twoSigma2\<close>\<close>
  "kernel_twoSigma2 sigmaPx = round_double (round_double (2 * sigmaPx) * sigmaPx)"

function gaussian_fill :: "real \<Rightarrow> int \<Rightarrow> int \<Rightarrow> jsnum list \<times> jsnum \<Rightarrow> jsnum list \<times> jsnum" where
  "gaussian_fill twoSigma2 radius i (kern, acc) =
     (if i \<le> radius then
        (let v = Math_exp (js_div (js_neg (Fin (of_int (i * i)))) (Fin twoSigma2))
         in gaussian_fill twoSigma2 radius (i + 1) (kern[nat (i + radius) := v], js_add acc v))
      else (kern, acc))"
  by pat_completeness auto
termination
  by (relation "measure (\<lambda>(t, radius, i, ks). nat (radius + 1 - i))") auto

definition generateGaussianKernel1D :: "real \<Rightarrow> jsnum list" where
  "generateGaussianKernel1D sigmaPx =
     (let radius = kernel_radius sigmaPx;
          size = radius * 2 + 1;
          kernel0 = replicate (nat size) (Fin 0);
          twoSigma2 = kernel_twoSigma2 sigmaPx;
          (kern, acc) = gaussian_fill twoSigma2 radius (- radius) (kernel0, Fin 0)
      in map (\<lambda>v. js_div v acc) kern)"

definition gaussian_tap :: "real \<Rightarrow> int \<Rightarrow> real" where
  \<comment> \<open>the sample of the Gaussian at the integer offset \<open>i\<close>, for the divisor \<open>t\<close>\<close>
  "gaussian_tap t i = exp (- (of_int (i * i)) / t)"

declare gaussian_fill.simps [simp del]

section \<open>Pixel buffers and chromatic aberration\<close>

text \<open>
  A pixel buffer is the \<open>data\<close> array of an \<open>ImageData\<close>: bytes in row-major order, four
  per pixel.  Reading a typed array at an index that is not an integer inside the array
  gives \<open>undefined\<close> (here \<open>None\<close>); storing \<open>undefined\<close> into a \<open>Uint8ClampedArray\<close>
  stores 0, and a store outside the array is ignored, as \<open>xs[i := v]\<close> is.

  The second half of \<open>applyOpticalEffects\<close> copies the buffer and then, for every pixel,
  writes the red and the blue channel from displaced sample positions.  The four
  displacements of the loop body (\<open>ux * shiftR\<close>, \<open>uy * shiftR\<close>, \<open>ux * shiftB\<close>,
  \<open>uy * shiftB\<close>) are computed by \<open>aberration_shifts\<close>.
\<close>

definition typed_get :: "nat list \<Rightarrow> jsnum \<Rightarrow> nat option" where
  "typed_get a j =
     (case j of
        Fin r \<Rightarrow> (if 0 \<le> r \<and> r = of_int \<lfloor>r\<rfloor> \<and> nat \<lfloor>r\<rfloor> < length a
                  then Some (a ! nat \<lfloor>r\<rfloor>) else None)
      | _ \<Rightarrow> None)"

definition u8_of_read :: "nat option \<Rightarrow> nat" where
  "u8_of_read v = (case v of Some b \<Rightarrow> b | None \<Rightarrow> 0)"

definition aberration_strength :: "int \<Rightarrow> jsnum" where
  "aberration_strength selectedAge = js_mul (js_sub (Fin 3) (Fin (of_int selectedAge))) (Fin 0.6)"

definition sampleNearest :: "nat \<Rightarrow> nat \<Rightarrow> nat list \<Rightarrow> jsnum \<Rightarrow> jsnum \<Rightarrow> nat \<Rightarrow> nat option" where
  "sampleNearest width height src ix iy channel =
     (let x = Math_max (Fin 0) (Math_min (js_sub (Fin (real width)) (Fin 1)) (Math_round ix));
          y = Math_max (Fin 0) (Math_min (js_sub (Fin (real height)) (Fin 1)) (Math_round iy))
      in typed_get src
           (js_add (js_mul (js_add (js_mul y (Fin (real width))) x) (Fin 4)) (Fin (real channel))))"

definition aberration_shifts :: "nat \<Rightarrow> nat \<Rightarrow> int \<Rightarrow> nat \<Rightarrow> nat \<Rightarrow> jsnum \<times> jsnum \<times> jsnum \<times> jsnum" where
  "aberration_shifts width height selectedAge x y =
     (let cx = js_div (Fin (real width)) (Fin 2);
          cy = js_div (Fin (real height)) (Fin 2);
          maxR = Math_hypot cx cy;
          strength = aberration_strength selectedAge;
          dx = js_sub (Fin (real x)) cx;
          dy = js_sub (Fin (real y)) cy;
          rNorm = Math_min (Fin 1) (js_div (Math_hypot dx dy) maxR);
          ux = (if js_seq dx (Fin 0) \<and> js_seq dy (Fin 0) then Fin 0
                else js_div dx (js_or (Math_hypot dx dy) (Fin 1)));
          uy = (if js_seq dx (Fin 0) \<and> js_seq dy (Fin 0) then Fin 0
                else js_div dy (js_or (Math_hypot dx dy) (Fin 1)));
          shiftR = js_mul (js_neg strength) rNorm;
          shiftB = js_mul strength rNorm
      in (js_mul ux shiftR, js_mul uy shiftR, js_mul ux shiftB, js_mul uy shiftB))"

definition aberration_pixel :: "nat \<Rightarrow> nat \<Rightarrow> int \<Rightarrow> nat list \<Rightarrow> nat \<Rightarrow> nat \<Rightarrow> nat list \<Rightarrow> nat list" where
  "aberration_pixel width height selectedAge src y x dst =
     (case aberration_shifts width height selectedAge x y of
        (rShiftX, rShiftY, bShiftX, bShiftY) \<Rightarrow>
          (let rSampleX = js_add (Fin (real x)) rShiftX;
               rSampleY = js_add (Fin (real y)) rShiftY;
               bSampleX = js_add (Fin (real x)) bShiftX;
               bSampleY = js_add (Fin (real y)) bShiftY;
               idx = (y * width + x) * 4
           in dst[idx := u8_of_read (sampleNearest width height src rSampleX rSampleY 0),
                  idx + 1 := u8_of_read (typed_get src (Fin (real (idx + 1)))),
                  idx + 2 := u8_of_read (sampleNearest width height src bSampleX bSampleY 2)]))"

definition chromatic_aberration :: "nat \<Rightarrow> nat \<Rightarrow> int \<Rightarrow> nat list \<Rightarrow> nat list" where
  "chromatic_aberration width height selectedAge src =
     fold (\<lambda>y. fold (aberration_pixel width height selectedAge src y) [0..<width]) [0..<height] src"

section \<open>Contrast sensitivity function\<close>


section \<open>Colour space conversions\<close>

text \<open>
  The colour functions work on finite channel values and never divide by a variable, so
  they are modelled on the reals.  \<open>Math.pow\<close> is only applied to a positive base here and
  is the real power \<open>powr\<close>.  The body of the pixel loop of \<open>applyLMSColorProcessing\<close>
  between linearisation and re-encoding is \<open>lms_linear\<close>: the product with \<open>RGB_TO_LMS\<close>
  (\<open>rgb_to_lms\<close>), the cone sensitivities, the von Kries blend and the product with
  \<open>LMS_TO_RGB\<close> (\<open>lms_to_rgb\<close>).
\<close>

definition srgbToLinear :: "real \<Rightarrow> real" where
  "srgbToLinear v = (if v \<le> 0.04045 then v / 12.92 else ((v + 0.055) / 1.055) powr 2.4)"

definition linearToSrgb :: "real \<Rightarrow> real" where
  "linearToSrgb v = (if v \<le> 0.0031308 then 12.92 * v else 1.055 * (v powr (1 / 2.4)) - 0.055)"

definition clamp01 :: "real \<Rightarrow> real" where
  "clamp01 v = (if v < 0 then 0 else if v > 1 then 1 else v)"

definition LMS_TO_RGB :: "real list list" where
  "LMS_TO_RGB =
     [[5.47221, - 4.64196, 0.16975],
      [- 1.1248, 2.29317, - 0.16837],
      [0.0298, - 0.19318, 1.16338]]"

definition RGB_TO_LMS :: "real list list" where
  "RGB_TO_LMS =
     [[0.31399, 0.63951, 0.0465],
      [0.15537, 0.75789, 0.08674],
      [0.01775, 0.10945, 0.8728]]"

definition rgb_to_lms :: "real \<times> real \<times> real \<Rightarrow> real \<times> real \<times> real" where
  "rgb_to_lms = (\<lambda>(r, g, b).
     (RGB_TO_LMS ! 0 ! 0 * r + RGB_TO_LMS ! 0 ! 1 * g + RGB_TO_LMS ! 0 ! 2 * b,
      RGB_TO_LMS ! 1 ! 0 * r + RGB_TO_LMS ! 1 ! 1 * g + RGB_TO_LMS ! 1 ! 2 * b,
      RGB_TO_LMS ! 2 ! 0 * r + RGB_TO_LMS ! 2 ! 1 * g + RGB_TO_LMS ! 2 ! 2 * b))"

definition lms_to_rgb :: "real \<times> real \<times> real \<Rightarrow> real \<times> real \<times> real" where
  "lms_to_rgb = (\<lambda>(l, m, s).
     (LMS_TO_RGB ! 0 ! 0 * l + LMS_TO_RGB ! 0 ! 1 * m + LMS_TO_RGB ! 0 ! 2 * s,
      LMS_TO_RGB ! 1 ! 0 * l + LMS_TO_RGB ! 1 ! 1 * m + LMS_TO_RGB ! 1 ! 2 * s,
      LMS_TO_RGB ! 2 ! 0 * l + LMS_TO_RGB ! 2 ! 1 * m + LMS_TO_RGB ! 2 ! 2 * s))"

definition lms_linear :: "age_preset \<Rightarrow> int \<Rightarrow> real \<times> real \<times> real \<Rightarrow> real \<times> real \<times> real" where
  "lms_linear preset selectedAge rgb =
     (case rgb_to_lms rgb of (l0, m0, s0) \<Rightarrow>
        (let l1 = l0 * cone_L (coneSensitivity preset);
             m1 = m0 * cone_M (coneSensitivity preset);
             s1 = s0 * cone_S (coneSensitivity preset);
             adaptationFactor = 0.8 + (0.2 * of_int selectedAge) / 3;
             l2 = l1 * adaptationFactor + (1 - adaptationFactor) * 0.5;
             m2 = m1 * adaptationFactor + (1 - adaptationFactor) * 0.5;
             s2 = s1 * adaptationFactor + (1 - adaptationFactor) * 0.5
         in lms_to_rgb (l2, m2, s2)))"

section \<open>Infant colour vision\<close>

text \<open>
  \<open>applyInfantColorVision\<close> reads the frame with \<open>getImageData\<close>, rewrites the three colour
  bytes of every pixel and writes the frame back.  The loop steps through the buffer by
  four; the frame of a canvas of positive size has \<open>4 * width * height\<close> bytes, so every
  read of the loop is inside the buffer.  The preset is whatever the table lookup of the
  caller produced: when it is \<open>undefined\<close> (\<open>None\<close>), the first property access of the
  loop body throws a \<open>TypeError\<close>, before anything is written back.  A store of a number
  into a \<open>Uint8ClampedArray\<close> clamps it to \<open>[0, 255]\<close> and rounds it to the nearest
  integer, ties to even.
\<close>

datatype js_error = TypeError

definition Math_round_real :: "real \<Rightarrow> real" where
  "Math_round_real v = of_int \<lfloor>v + 1 / 2\<rfloor>"

definition to_uint8_clamped :: "real \<Rightarrow> nat" where
  "to_uint8_clamped v =
     (if v \<le> 0 then 0 else if 255 \<le> v then 255
      else (let f = \<lfloor>v\<rfloor> in
            if v - of_int f < 1 / 2 then nat f
            else if 1 / 2 < v - of_int f then nat (f + 1)
            else if even f then nat f else nat (f + 1)))"

definition encode_srgb :: "real \<Rightarrow> nat" where
  \<comment> \<open>the store \<open>data[i] = Math.round(linearToSrgb(v) * 255)\<close>\<close>
  "encode_srgb v = to_uint8_clamped (Math_round_real (linearToSrgb v * 255))"

definition luminance_709 :: "real \<Rightarrow> real \<Rightarrow> real \<Rightarrow> real" where
  "luminance_709 rL gL bL = 0.2126 * rL + 0.7152 * gL + 0.0722 * bL"

definition redStrength :: "age_preset \<Rightarrow> real \<Rightarrow> real" where
  "redStrength preset rL = rL * cone_L (coneSensitivity preset)"

definition desaturated :: "real \<Rightarrow> real" where
  "desaturated luminance = luminance * 0.85"

definition infant_linear :: "age_preset \<Rightarrow> int \<Rightarrow> real \<times> real \<times> real \<Rightarrow> real \<times> real \<times> real" where
  "infant_linear preset selectedAge = (\<lambda>(rL, gL, bL).
     (let luminance = luminance_709 rL gL bL in
      if selectedAge = 1 then
        (clamp01 (desaturated luminance + redStrength preset rL * 0.25),
         clamp01 (desaturated luminance * cone_M (coneSensitivity preset)),
         clamp01 (desaturated luminance * cone_S (coneSensitivity preset)))
      else if selectedAge = 2 then
        (clamp01 (rL * cone_L (coneSensitivity preset)),
         clamp01 (gL * cone_M (coneSensitivity preset)),
         clamp01 (min (bL * cone_S (coneSensitivity preset)) (luminance * 0.3)))
      else
        (clamp01 (rL * cone_L (coneSensitivity preset)),
         clamp01 (gL * cone_M (coneSensitivity preset)),
         clamp01 (bL * cone_S (coneSensitivity preset)))))"

definition infant_pixel :: "age_preset \<Rightarrow> int \<Rightarrow> nat \<times> nat \<times> nat \<Rightarrow> nat \<times> nat \<times> nat" where
  "infant_pixel preset selectedAge = (\<lambda>(r, g, b).
     (let rS = real r / 255; gS = real g / 255; bS = real b / 255;
          rL = srgbToLinear rS; gL = srgbToLinear gS; bL = srgbToLinear bS
      in case infant_linear preset selectedAge (rL, gL, bL) of
           (outR, outG, outB) \<Rightarrow> (encode_srgb outR, encode_srgb outG, encode_srgb outB)))"

function infant_loop :: "age_preset option \<Rightarrow> int \<Rightarrow> nat \<Rightarrow> nat list \<Rightarrow> js_error + nat list" where
  "infant_loop preset selectedAge i data =
     (if i < length data then
        (case preset of
           None \<Rightarrow> Inl TypeError
         | Some p \<Rightarrow>
             (case infant_pixel p selectedAge (data ! i, data ! (i + 1), data ! (i + 2)) of
                (r', g', b') \<Rightarrow>
                  infant_loop preset selectedAge (i + 4) (data[i := r', i + 1 := g', i + 2 := b'])))
      else Inr data)"
  by pat_completeness auto
termination
  by (relation "measure (\<lambda>(preset, selectedAge, i, data). length data - i)") auto

declare infant_loop.simps [simp del]

definition applyInfantColorVision :: "nat list \<Rightarrow> age_preset option \<Rightarrow> int \<Rightarrow> js_error + nat list" where
  "applyInfantColorVision data preset selectedAge = infant_loop preset selectedAge 0 data"

text \<open>
  The formulas of the specification for the least mature stage, written from its words:
  \<open>outR = luminance * 0.85 + (r_linear * coneL) * 0.25\<close>,
  \<open>outG = luminance * 0.85 * coneM\<close>, \<open>outB = luminance * 0.85 * coneS\<close>, each clamped to
  \<open>[0, 1]\<close>.
\<close>

definition spec_stage1_linear :: "real \<Rightarrow> real \<Rightarrow> real \<Rightarrow> real \<Rightarrow> real \<Rightarrow> real \<times> real \<times> real" where
  "spec_stage1_linear coneL coneM coneS luminance r_linear =
     (clamp01 (luminance * 0.85 + (r_linear * coneL) * 0.25),
      clamp01 (luminance * 0.85 * coneM),
      clamp01 (luminance * 0.85 * coneS))"

text \<open>
  A frame is a list of pixels, each with its four bytes; \<open>frame_of\<close> is its buffer.
  \<open>spec_stage1_pixel\<close> relates an input pixel to an output pixel as the specification
  asks of the least mature stage: with \<open>r_linear\<close> the linearised red byte and \<open>luminance\<close>
  the Rec. 709 luminance of the linearised pixel, each colour byte of the output is the
  re-encoded value \<open>255 * linearToSrgb out\<close> of its clamped formula, to the nearest integer
  (with a margin of \<open>10\<^sup>-\<^sup>6\<close> for the rounding of the computation), and the alpha byte is kept.
\<close>

definition frame_of :: "(nat \<times> nat \<times> nat \<times> nat) list \<Rightarrow> nat list" where
  "frame_of pxs = concat (map (\<lambda>(r, g, b, a). [r, g, b, a]) pxs)"

definition spec_stage1_pixel :: "age_preset \<Rightarrow> nat \<times> nat \<times> nat \<times> nat \<Rightarrow> nat \<times> nat \<times> nat \<times> nat \<Rightarrow> bool" where
  "spec_stage1_pixel preset = (\<lambda>(r, g, b, a) (r', g', b', a').
     (let r_linear = srgbToLinear (real r / 255);
          luminance = 0.2126 * r_linear + 0.7152 * srgbToLinear (real g / 255)
                        + 0.0722 * srgbToLinear (real b / 255)
      in case spec_stage1_linear (cone_L (coneSensitivity preset)) (cone_M (coneSensitivity preset))
                (cone_S (coneSensitivity preset)) luminance r_linear of
           (outR, outG, outB) \<Rightarrow>
             \<bar>real r' - 255 * linearToSrgb outR\<bar> \<le> 1 / 2 + 1 / 10 ^ 6
           \<and> \<bar>real g' - 255 * linearToSrgb outG\<bar> \<le> 1 / 2 + 1 / 10 ^ 6
           \<and> \<bar>real b' - 255 * linearToSrgb outB\<bar> \<le> 1 / 2 + 1 / 10 ^ 6
           \<and> a' = a))"

section \<open>Peripheral vignette\<close>

text \<open>
  \<open>applyPeripheralVision\<close> computes a radial gradient of white with three alpha stops
  and asks the canvas to fill the frame with it under the composite operation
  \<open>multiply\<close>.  The model returns that request: the operation, the gradient (two circles
  and the list of stops, each an offset with the alpha of its white colour) and the
  rectangle.  \<open>centralRadiusPx\<close> and \<open>maxRadiusPx\<close> are the locals of the same names.
\<close>

record radial_gradient =
  grad_x0 :: jsnum
  grad_y0 :: jsnum
  grad_r0 :: jsnum
  grad_x1 :: jsnum
  grad_y1 :: jsnum
  grad_r1 :: jsnum
  grad_stops :: "(jsnum \<times> jsnum) list"

record fill_command =
  composite_op :: string
  fill_style :: radial_gradient
  rect_x :: jsnum
  rect_y :: jsnum
  rect_w :: jsnum
  rect_h :: jsnum

definition centralRadiusPx :: "age_preset \<Rightarrow> jsnum \<Rightarrow> jsnum \<Rightarrow> jsnum" where
  "centralRadiusPx preset width height =
     (let ppd = estimatePixelsPerDegree width height DEFAULT_CAMERA_HFOV_DEG
      in Math_max (Fin 1) (js_mul (Fin (centralFieldRadiusDeg preset)) ppd))"

definition maxRadiusPx :: "jsnum \<Rightarrow> jsnum \<Rightarrow> jsnum" where
  "maxRadiusPx width height = js_mul (Math_hypot width height) (Fin 0.5)"

definition applyPeripheralVision :: "age_preset \<Rightarrow> jsnum \<Rightarrow> jsnum \<Rightarrow> fill_command" where
  "applyPeripheralVision preset width height =
     (let centerX = js_div width (Fin 2);
          centerY = js_div height (Fin 2);
          gradient = \<lparr>
            grad_x0 = centerX,
            grad_y0 = centerY,
            grad_r0 = Math_max (Fin 1) (js_mul (centralRadiusPx preset width height) (Fin 0.5)),
            grad_x1 = centerX,
            grad_y1 = centerY,
            grad_r1 = Math_max (centralRadiusPx preset width height) (maxRadiusPx width height),
            grad_stops =
              [(Fin 0, Fin 1),
               (Fin 0.5, js_sub (Fin 1) (js_mul (Fin (peripheralSuppression preset)) (Fin 0.4))),
               (Fin 1, js_sub (Fin 1) (Fin (peripheralSuppression preset)))] \<rparr>
      in \<lparr> composite_op = ''multiply'', fill_style = gradient,
           rect_x = Fin 0, rect_y = Fin 0, rect_w = width, rect_h = height \<rparr>)"

text \<open>
  The gradient itself is painted by the canvas.  For a radial gradient between two
  circles with a common centre, the colour stop with offset \<open>t\<close> lies on the circle of
  radius \<open>r0 + t * (r1 - r0)\<close>; inside the start circle the colour is that of the first
  stop.
\<close>

definition stop_radius :: "radial_gradient \<Rightarrow> jsnum \<Rightarrow> jsnum" where
  "stop_radius g t = js_add (grad_r0 g) (js_mul t (js_sub (grad_r1 g) (grad_r0 g)))"

text \<open>
  What the canvas does with the request is not code of the program; it is modelled after
  the canvas and compositing standards, for a request whose operation is \<open>multiply\<close> and
  whose gradient has one centre, on the opaque bitmap of the output canvas (the context is
  created with \<open>alpha: false\<close>).  The request is refused with a \<open>TypeError\<close> when a
  coordinate or a radius of the gradient is not finite.  The alpha of a colour
  \<open>rgba(255,255,255,a)\<close> is \<open>a\<close> clamped to \<open>[0, 1]\<close>.  At a point at distance \<open>d\<close> from the
  centre the gradient has the offset \<open>(d - r0) / (r1 - r0)\<close>; its colour there is
  interpolated between the two stops around that offset, and is the colour of the first
  or last stop outside them; when the two radii are equal nothing is painted.  Every stop
  of this program is white, so the colour of the fill is white at every point, with the
  interpolated alpha \<open>gradient_alpha\<close>.  A source colour \<open>cs\<close> with alpha \<open>alpha\<close> over an
  opaque backdrop colour \<open>cb\<close> gives \<open>alpha * B(cb, cs) + (1 - alpha) * cb\<close>, where the
  blend function of \<open>multiply\<close> is \<open>B(cb, cs) = cb * cs\<close>; channels are in \<open>[0, 1]\<close>, and
  the alpha byte of the bitmap stays 255.  \<open>fillRect_multiply\<close> paints the pixels of the
  bitmap with the given row length whose centres lie in the rectangle of the request.
\<close>

fun finite_value :: "jsnum \<Rightarrow> real option" where
  "finite_value (Fin a) = Some a"
| "finite_value PInf = None"
| "finite_value NInf = None"
| "finite_value NaN = None"

fun resolved_stops :: "(jsnum \<times> jsnum) list \<Rightarrow> (real \<times> real) list option" where
  "resolved_stops [] = Some []"
| "resolved_stops ((t, a) # rest) =
     (case (finite_value t, finite_value a, resolved_stops rest) of
        (Some t', Some a', Some rest') \<Rightarrow> Some ((t', clamp01 a') # rest')
      | _ \<Rightarrow> None)"

fun stops_alpha :: "(real \<times> real) list \<Rightarrow> real \<Rightarrow> real" where
  "stops_alpha [] t = 0"
| "stops_alpha [(t1, a1)] t = a1"
| "stops_alpha ((t1, a1) # (t2, a2) # rest) t =
     (if t \<le> t1 then a1
      else if t < t2 then a1 + (t - t1) / (t2 - t1) * (a2 - a1)
      else stops_alpha ((t2, a2) # rest) t)"

definition gradient_alpha :: "real \<Rightarrow> real \<Rightarrow> real \<Rightarrow> real \<Rightarrow> (real \<times> real) list \<Rightarrow> real \<Rightarrow> real \<Rightarrow> real option" where
  "gradient_alpha cx cy r0 r1 stops x y =
     (if r0 = r1 then None
      else Some (stops_alpha stops ((sqrt ((x - cx) * (x - cx) + (y - cy) * (y - cy)) - r0) / (r1 - r0))))"

definition multiply_blend :: "real \<Rightarrow> real \<Rightarrow> real" where
  "multiply_blend cb cs = cb * cs"

definition composite_opaque :: "real \<Rightarrow> real \<Rightarrow> real \<Rightarrow> real" where
  "composite_opaque alpha cs cb = alpha * multiply_blend cb cs + (1 - alpha) * cb"

definition paint_white :: "real option \<Rightarrow> nat \<Rightarrow> nat" where
  "paint_white alpha b =
     (case alpha of
        None \<Rightarrow> b
      | Some a \<Rightarrow> to_uint8_clamped (255 * composite_opaque a 1 (real b / 255)))"

definition rect_covers :: "fill_command \<Rightarrow> real \<Rightarrow> real \<Rightarrow> bool" where
  "rect_covers cmd x y =
     (js_lt (rect_x cmd) (Fin x) \<and> js_lt (Fin x) (js_add (rect_x cmd) (rect_w cmd))
      \<and> js_lt (rect_y cmd) (Fin y) \<and> js_lt (Fin y) (js_add (rect_y cmd) (rect_h cmd)))"

definition fillRect_multiply :: "fill_command \<Rightarrow> nat \<Rightarrow> nat list \<Rightarrow> js_error + nat list" where
  "fillRect_multiply cmd width pixels =
     (let g = fill_style cmd in
      case (finite_value (grad_x0 g), finite_value (grad_y0 g), finite_value (grad_r0 g),
            finite_value (grad_r1 g), resolved_stops (grad_stops g)) of
        (Some cx, Some cy, Some r0, Some r1, Some stops) \<Rightarrow>
          Inr (map (\<lambda>(m, b).
                 if m mod 4 = 3 then b
                 else (let x = real ((m div 4) mod width) + 1 / 2;
                           y = real ((m div 4) div width) + 1 / 2
                       in if rect_covers cmd x y
                          then paint_white (gradient_alpha cx cy r0 r1 stops x y) b
                          else b))
               (zip [0..<length pixels] pixels))
      | _ \<Rightarrow> Inl TypeError)"

section \<open>Separable convolution and lateral inhibition\<close>

text \<open>
  \<open>applyKernelPixel\<close> accumulates the weighted samples of one pixel along one axis, with
  the sample coordinate clamped to the frame, and stores the three quotients and the
  alpha 255 into the output array.  The weights are the numbers of the kernel, so the
  sums and quotients follow the rules of \<open>jsnum\<close>.  Within a frame of
  \<open>4 * width * height\<close> bytes and a kernel of odd length every read is inside its array.
  The second half of
  \<open>applyNeuralEffects\<close>, the Difference-of-Gaussians step, is \<open>lateral_inhibition_dog\<close>; the
  first half adds random noise and is not part of this function.
\<close>

definition to_uint8_clamped_num :: "jsnum \<Rightarrow> nat" where
  \<comment> \<open>the store of a number into a \<open>Uint8ClampedArray\<close>: \<open>NaN\<close> is stored as 0\<close>
  "to_uint8_clamped_num v =
     (case v of Fin a \<Rightarrow> to_uint8_clamped a | PInf \<Rightarrow> 255 | NInf \<Rightarrow> 0 | NaN \<Rightarrow> 0)"

definition kernel_tap :: "nat \<Rightarrow> nat \<Rightarrow> nat list \<Rightarrow> nat \<Rightarrow> nat \<Rightarrow> jsnum list \<Rightarrow> int \<Rightarrow> bool \<Rightarrow> int
    \<Rightarrow> jsnum \<times> jsnum \<times> jsnum \<times> jsnum \<Rightarrow> jsnum \<times> jsnum \<times> jsnum \<times> jsnum" where
  \<comment> \<open>one round of the loop over \<open>k\<close> in \<open>applyKernelPixel\<close>\<close>
  "kernel_tap width height input x y kern kernelRadius horizontal k = (\<lambda>(r, g, b, weightSum).
     (let sampleX = (if horizontal then nat (max 0 (min (int width - 1) (int x + k))) else x);
          sampleY = (if horizontal then y else nat (max 0 (min (int height - 1) (int y + k))));
          sampleIdx = (sampleY * width + sampleX) * 4;
          weight = kern ! nat (k + kernelRadius)
      in (js_add r (js_mul (Fin (real (input ! sampleIdx))) weight),
          js_add g (js_mul (Fin (real (input ! (sampleIdx + 1)))) weight),
          js_add b (js_mul (Fin (real (input ! (sampleIdx + 2)))) weight),
          js_add weightSum weight)))"

definition applyKernelPixel :: "nat list \<Rightarrow> nat list \<Rightarrow> nat \<Rightarrow> nat \<Rightarrow> nat \<Rightarrow> nat \<Rightarrow> jsnum list \<Rightarrow> bool \<Rightarrow> nat list" where
  "applyKernelPixel input output width height x y kern horizontal =
     (let idx = (y * width + x) * 4;
          kernelRadius = int (length kern div 2)
      in case fold (kernel_tap width height input x y kern kernelRadius horizontal)
                [- kernelRadius..kernelRadius] (Fin 0, Fin 0, Fin 0, Fin 0) of
           (r, g, b, weightSum) \<Rightarrow>
             output[idx := to_uint8_clamped_num (js_div r weightSum),
                    idx + 1 := to_uint8_clamped_num (js_div g weightSum),
                    idx + 2 := to_uint8_clamped_num (js_div b weightSum),
                    idx + 3 := 255])"

definition blur_pass :: "nat list \<Rightarrow> nat \<Rightarrow> nat \<Rightarrow> jsnum list \<Rightarrow> bool \<Rightarrow> nat list" where
  \<comment> \<open>a fresh zero-filled array of the length of \<open>input\<close>, filled by the two nested loops\<close>
  "blur_pass input width height kern horizontal =
     fold (\<lambda>y. fold (\<lambda>x output. applyKernelPixel input output width height x y kern horizontal) [0..<width])
       [0..<height] (replicate (length input) 0)"

function dog_combine :: "real \<Rightarrow> nat list \<Rightarrow> nat list \<Rightarrow> nat \<Rightarrow> nat list \<Rightarrow> nat list" where
  "dog_combine k blur1 blur2 i data =
     (if i < length data then
        (let dogR = real (blur1 ! i) - real (blur2 ! i);
             dogG = real (blur1 ! (i + 1)) - real (blur2 ! (i + 1));
             dogB = real (blur1 ! (i + 2)) - real (blur2 ! (i + 2))
         in dog_combine k blur1 blur2 (i + 4)
              (data[i := to_uint8_clamped (max 0 (min 255 (real (data ! i) - k * dogR))),
                    i + 1 := to_uint8_clamped (max 0 (min 255 (real (data ! (i + 1)) - k * dogG))),
                    i + 2 := to_uint8_clamped (max 0 (min 255 (real (data ! (i + 2)) - k * dogB)))]))
      else data)"
  by pat_completeness auto
termination
  by (relation "measure (\<lambda>(k, blur1, blur2, i, data). length data - i)") auto

declare dog_combine.simps [simp del]

definition lateral_inhibition_dog :: "age_preset \<Rightarrow> nat \<Rightarrow> nat \<Rightarrow> nat list \<Rightarrow> nat list" where
  "lateral_inhibition_dog preset width height data =
     (if lateralInhibition preset > 0 then
        (let alpha = min 1 (lateralInhibition preset);
             sigma1 = 0.8;
             sigma2 = 2.0 + 2.0 * (1 - alpha);
             k1 = generateGaussianKernel1D sigma1;
             k2 = generateGaussianKernel1D sigma2;
             temp1 = blur_pass data width height k1 True;
             blur1 = blur_pass temp1 width height k1 False;
             temp2 = blur_pass data width height k2 True;
             blur2 = blur_pass temp2 width height k2 False;
             k = 0.5 * alpha
         in dog_combine k blur1 blur2 0 data)
      else data)"

section \<open>The frame pipeline\<close>

text \<open>
  \<open>processFrame\<close> runs once per tick on the module state: the output context, the canvas
  size, the readiness of the video element, the selected age and the two toggles.  The
  canvas itself is outside the program; its three operations used here are parameters:
  drawing the (mirrored) video frame, which may throw and is caught, redrawing the canvas
  through the blur and contrast filter, and filling a rectangle.  A tick is skipped
  (early \<open>return\<close>), throws, or completes.  The preset is looked up in the table after the
  video frame has been drawn; a missing entry is \<open>undefined\<close>, and the first property
  access on it throws a \<open>TypeError\<close> that \<open>processFrame\<close> does not catch.
\<close>

record app_state =
  outputCtx_available :: bool
  canvas_width :: int
  canvas_height :: int
  video_ready :: bool
  selectedAge :: int
  isMirrored :: bool
  enablePeripheralBlend :: bool
  frameCount :: nat
  canvas_pixels :: "nat list"

record canvas_ops =
  drawVideo :: "bool \<Rightarrow> int \<Rightarrow> int \<Rightarrow> nat list option"
  drawFiltered :: "int \<Rightarrow> real \<Rightarrow> nat list \<Rightarrow> nat list"
  fillRect :: "fill_command \<Rightarrow> nat list \<Rightarrow> nat list"

datatype tick_result = Skipped | Threw js_error | Completed

definition processFrame :: "canvas_ops \<Rightarrow> app_state \<Rightarrow> tick_result \<times> app_state" where
  "processFrame ops st =
     (if \<not> outputCtx_available st then (Skipped, st)
      else
        (let width = canvas_width st; height = canvas_height st in
         if width \<le> 0 \<or> height \<le> 0 then (Skipped, st)
         else if \<not> video_ready st then (Skipped, st)
         else
           (case drawVideo ops (isMirrored st) width height of
              None \<Rightarrow> (Skipped, st)
            | Some frame \<Rightarrow>
                (let st1 = st\<lparr>canvas_pixels := frame\<rparr>;
                     preset = AGE_PRESETS (selectedAge st);
                     blurAmount = max 0 ((4 - selectedAge st) * 2)
                 in case (if blurAmount > 0 then
                            (case preset of
                               None \<Rightarrow> Inl TypeError
                             | Some p \<Rightarrow>
                                 Inr (st1\<lparr>canvas_pixels :=
                                        drawFiltered ops blurAmount (contrastSensitivityPeak p * 2)
                                          (canvas_pixels st1)\<rparr>))
                          else Inr st1) of
                      Inl e \<Rightarrow> (Threw e, st1)
                    | Inr st2 \<Rightarrow>
                        (case applyInfantColorVision (canvas_pixels st2) preset (selectedAge st) of
                           Inl e \<Rightarrow> (Threw e, st2)
                         | Inr data \<Rightarrow>
                             (let st3 = st2\<lparr>canvas_pixels := data\<rparr> in
                              case (if enablePeripheralBlend st then
                                      (case preset of
                                         None \<Rightarrow> Inl TypeError
                                       | Some p \<Rightarrow>
                                           Inr (st3\<lparr>canvas_pixels :=
                                                  fillRect ops
                                                    (applyPeripheralVision p (Fin (of_int width)) (Fin (of_int height)))
                                                    (canvas_pixels st3)\<rparr>))
                                    else Inr st3) of
                                Inl e \<Rightarrow> (Threw e, st3)
                              | Inr st4 \<Rightarrow> (Completed, st4\<lparr>frameCount := frameCount st4 + 1\<rparr>)))))))"

section \<open>Pixels per degree\<close>

lemma vfov_deg_pos:
  assumes "0 < hfov" "hfov < 180" "0 < a"
  shows "0 < vfov_deg hfov a"
proof -
  have "0 < hfov * pi / 180 / 2" using assms by simp
  moreover have "hfov * pi / 180 / 2 < pi / 2" using assms by simp
  ultimately have "0 < tan (hfov * pi / 180 / 2)" by (rule tan_gt_zero)
  then have "0 < tan (hfov * pi / 180 / 2) / a" using assms by simp
  then have "0 < arctan (tan (hfov * pi / 180 / 2) / a)" by (simp only: zero_less_arctan_iff)
  then show ?thesis by (simp add: vfov_deg_def)
qed

lemma Math_min_Fin: "Math_min (Fin a) (Fin b) = Fin (min a b)"
  by (simp add: Math_min_def min_def)

lemma Math_max_Fin: "Math_max (Fin a) (Fin b) = Fin (max a b)"
  by (simp add: Math_max_def max_def)

lemma js_div_Fin: "b \<noteq> 0 \<Longrightarrow> js_div (Fin a) (Fin b) = Fin (a / b)"
  by simp

lemma aspect_of_Fin:
  "aspect_of (Fin w) (Fin h) = Fin (if 0 < w \<and> 0 < h then w / h else 16 / 9)"
  by (simp add: aspect_of_def js_gt_def)

lemma estimatePixelsPerDegree_Fin:
  assumes "0 < hfov" "hfov < 180"
  shows "estimatePixelsPerDegree (Fin w) (Fin h) (Fin hfov) =
         Fin (max 1 (min (w / hfov) (h / vfov_deg hfov (if 0 < w \<and> 0 < h then w / h else 16 / 9))))"
proof -
  define a where "a = (if 0 < w \<and> 0 < h then w / h else 16 / 9)"
  have a: "0 < a" by (simp add: a_def)
  have v: "0 < vfov_deg hfov a" using assms a by (rule vfov_deg_pos)
  have rad: "js_div (degToRad (Fin hfov)) (Fin 2) = Fin (hfov * pi / 180 / 2)"
    by (simp add: degToRad_def Math_PI_def)
  have vf: "radToDeg (js_mul (Fin 2) (Math_atan (js_div (Math_tan (js_div (degToRad (Fin hfov)) (Fin 2))) (Fin a))))
        = Fin (vfov_deg hfov a)"
    using a by (simp add: rad radToDeg_def Math_PI_def vfov_deg_def)
  have "estimatePixelsPerDegree (Fin w) (Fin h) (Fin hfov)
      = Math_max (Fin 1) (Math_min (js_div (Fin w) (Fin hfov)) (js_div (Fin h) (Fin (vfov_deg hfov a))))"
    unfolding estimatePixelsPerDegree_def Let_def aspect_of_Fin a_def [symmetric] vf ..
  also have "\<dots> = Fin (max 1 (min (w / hfov) (h / vfov_deg hfov a)))"
  proof -
    have "js_div (Fin w) (Fin hfov) = Fin (w / hfov)" using assms by (simp add: js_div_Fin)
    moreover have "js_div (Fin h) (Fin (vfov_deg hfov a)) = Fin (h / vfov_deg hfov a)"
      using v by (simp add: js_div_Fin)
    ultimately show ?thesis by (simp only: Math_min_Fin Math_max_Fin)
  qed
  finally show ?thesis by (simp add: a_def)
qed

text \<open>
  C10.  \<open>estimatePixelsPerDegree\<close> never fails: for every finite width and height, also
  non-positive ones, and the default horizontal field of view, the result is a finite
  number that is at least 1.  When the width or the height is not positive the aspect
  ratio used for the vertical field of view is 16/9, and when the width is not positive
  the result is exactly 1.
\<close>

theorem estimatePixelsPerDegree_total:
  "\<exists>v. estimatePixelsPerDegree (Fin w) (Fin h) DEFAULT_CAMERA_HFOV_DEG = Fin v \<and> 1 \<le> v
     \<and> (w \<le> 0 \<or> h \<le> 0 \<longrightarrow> aspect_of (Fin w) (Fin h) = Fin (16 / 9))
     \<and> (w \<le> 0 \<longrightarrow> v = 1)"
proof -
  have e: "estimatePixelsPerDegree (Fin w) (Fin h) (Fin 60) =
         Fin (max 1 (min (w / 60) (h / vfov_deg 60 (if 0 < w \<and> 0 < h then w / h else 16 / 9))))"
    by (rule estimatePixelsPerDegree_Fin) simp_all
  have "w \<le> 0 \<Longrightarrow> min (w / 60) (h / vfov_deg 60 (if 0 < w \<and> 0 < h then w / h else 16 / 9)) \<le> 0"
    by (simp add: min_le_iff_disj divide_le_0_iff)
  then show ?thesis
    unfolding DEFAULT_CAMERA_HFOV_DEG_def e
    by (auto simp: aspect_of_def js_gt_def)
qed

theorem estimatePixelsPerDegree_total_witness:
  "estimatePixelsPerDegree (Fin (- 5)) (Fin 10) DEFAULT_CAMERA_HFOV_DEG = Fin 1
   \<and> aspect_of (Fin (- 5)) (Fin 10) = Fin (16 / 9)"
  using estimatePixelsPerDegree_total [of "- 5" 10] by auto

section \<open>The preset table\<close>

lemma AGE_PRESETS_cases:
  assumes "AGE_PRESETS a = Some p"
  shows "(a = 1 \<and> p = preset_1) \<or> (a = 2 \<and> p = preset_2) \<or> (a = 3 \<and> p = preset_3)"
  using assms by (auto simp: AGE_PRESETS_def split: if_splits)

lemma AGE_PRESETS_dom: "dom AGE_PRESETS = {1, 2, 3}"
  by (auto simp: AGE_PRESETS_def)

text \<open>
  C8.  Along increasing age the spatial cutoff, the peak contrast sensitivity and each of
  the three cone sensitivities never decrease: whenever the table has an entry \<open>p\<close> for
  age \<open>a\<close> and an entry \<open>q\<close> for age \<open>b\<close> with \<open>a \<le> b\<close>, every one of these five fields
  of \<open>p\<close> is at most the same field of \<open>q\<close>.
\<close>

theorem presets_monotonic:
  assumes "AGE_PRESETS a = Some p" and "AGE_PRESETS b = Some q" and "a \<le> b"
  shows "spatialCutoffCPD p \<le> spatialCutoffCPD q
       \<and> contrastSensitivityPeak p \<le> contrastSensitivityPeak q
       \<and> cone_L (coneSensitivity p) \<le> cone_L (coneSensitivity q)
       \<and> cone_M (coneSensitivity p) \<le> cone_M (coneSensitivity q)
       \<and> cone_S (coneSensitivity p) \<le> cone_S (coneSensitivity q)"
  using AGE_PRESETS_cases [OF assms(1)] AGE_PRESETS_cases [OF assms(2)] assms(3)
  by (auto simp: preset_1_def preset_2_def preset_3_def)

theorem presets_monotonic_witness:
  "AGE_PRESETS 1 = Some preset_1 \<and> AGE_PRESETS 3 = Some preset_3 \<and> (1::int) \<le> 3
   \<and> spatialCutoffCPD preset_1 \<le> spatialCutoffCPD preset_3
   \<and> contrastSensitivityPeak preset_1 \<le> contrastSensitivityPeak preset_3
   \<and> cone_L (coneSensitivity preset_1) \<le> cone_L (coneSensitivity preset_3)
   \<and> cone_M (coneSensitivity preset_1) \<le> cone_M (coneSensitivity preset_3)
   \<and> cone_S (coneSensitivity preset_1) \<le> cone_S (coneSensitivity preset_3)"
proof -
  have a: "AGE_PRESETS 1 = Some preset_1" by (simp add: AGE_PRESETS_def)
  have b: "AGE_PRESETS 3 = Some preset_3" by (simp add: AGE_PRESETS_def)
  have c: "(1::int) \<le> 3" by simp
  show ?thesis using a b c presets_monotonic [OF a b c] by simp
qed

section \<open>Rounding to the nearest double\<close>

lemma round_half_even_of_int: "round_half_even (of_int n) = n"
  by (simp add: round_half_even_def)

lemma round_half_even_small:
  assumes "\<bar>x\<bar> \<le> 1 / 2"
  shows "round_half_even x = 0"
proof (cases "0 \<le> x")
  case True
  then have f: "\<lfloor>x\<rfloor> = 0" using assms by linarith
  show ?thesis using assms True by (simp add: round_half_even_def f)
next
  case False
  then have f: "\<lfloor>x\<rfloor> = - 1" using assms by linarith
  show ?thesis using assms False by (auto simp: round_half_even_def f Let_def)
qed


lemma round_double_underflow:
  assumes "\<bar>x\<bar> \<le> 2 powr (- 1075)"
  shows "round_double x = 0"
proof (cases "x = 0")
  case True
  then show ?thesis by (simp add: round_double_def)
next
  case False
  then have pos: "0 < \<bar>x\<bar>" by simp
  have "log 2 \<bar>x\<bar> \<le> - 1075"
    using assms pos by (simp add: log_le_iff)
  then have e: "max \<lfloor>log 2 \<bar>x\<bar>\<rfloor> (- 1022) = - 1022" by linarith
  have "\<bar>x / 2 powr (- 1074)\<bar> = \<bar>x\<bar> / 2 powr (- 1074)" by simp
  also have "\<dots> \<le> 2 powr (- 1075) / 2 powr (- 1074)"
    using assms by (simp add: divide_right_mono)
  also have "\<dots> = 2 powr (- 1)" by (simp flip: powr_diff)
  also have "\<dots> = 1 / 2" by (simp add: powr_minus_divide)
  finally have "round_half_even (x / 2 powr (- 1074)) = 0" by (rule round_half_even_small)
  then show ?thesis using False by (simp add: round_double_def e Let_def)
qed

lemma powr_int_nonneg: "0 \<le> j \<Longrightarrow> (2::real) powr (of_int j) = of_int (2 ^ nat j)"
  by (simp add: powr_realpow [symmetric])

lemma round_double_representable:
  assumes m: "m \<noteq> 0" "\<bar>m\<bar> < 2 ^ 53" and k: "- 1074 \<le> k"
  shows "round_double (of_int m * 2 powr (of_int k)) = (of_int m * 2 powr (of_int k) :: real)"
proof -
  define x :: real where "x = of_int m * 2 powr (of_int k)"
  have x0: "x \<noteq> 0" using m(1) by (simp add: x_def)
  define e where "e = max \<lfloor>log 2 \<bar>x\<bar>\<rfloor> (- 1022)"
  have absx: "\<bar>x\<bar> = of_int \<bar>m\<bar> * 2 powr (of_int k)" by (simp add: x_def abs_mult)
  have mpos: "0 < (of_int \<bar>m\<bar> :: real)" using m(1) by simp
  have "log 2 \<bar>x\<bar> = log 2 (of_int \<bar>m\<bar>) + of_int k"
    unfolding absx using mpos by (simp add: log_mult)
  moreover have "log 2 (of_int \<bar>m\<bar>) < 53"
  proof -
    have "(of_int \<bar>m\<bar> :: real) < 2 ^ 53" using m(2) by (metis of_int_less_numeral_power_cancel_iff)
    then have "(of_int \<bar>m\<bar> :: real) < 2 powr 53" by simp
    then show ?thesis using mpos by (simp add: log_less_iff)
  qed
  ultimately have "log 2 \<bar>x\<bar> < 53 + of_int k" by simp
  then have "\<lfloor>log 2 \<bar>x\<bar>\<rfloor> < 53 + k" by linarith
  then have j: "0 \<le> k - (e - 52)" using k by (simp add: e_def)
  define j where "j = k - (e - 52)"
  have "x / 2 powr (of_int (e - 52)) = of_int m * (2 powr (of_int k) / 2 powr (of_int (e - 52)))"
    by (simp add: x_def)
  also have "2 powr (of_int k) / 2 powr (of_int (e - 52)) = (2::real) powr (of_int j)"
    by (simp add: j_def flip: powr_diff)
  also have "\<dots> = of_int (2 ^ nat j)"
  proof -
    have "0 \<le> j" using j by (simp add: j_def)
    then show ?thesis by (rule powr_int_nonneg)
  qed
  finally have q: "x / 2 powr (of_int (e - 52)) = of_int (m * 2 ^ nat j)" by simp
  have "round_double x = of_int (round_half_even (x / 2 powr (of_int (e - 52)))) * 2 powr (of_int (e - 52))"
    using x0 by (simp add: round_double_def e_def Let_def)
  also have "\<dots> = of_int (m * 2 ^ nat j) * 2 powr (of_int (e - 52))"
    by (simp only: q round_half_even_of_int)
  also have "\<dots> = x / 2 powr (of_int (e - 52)) * 2 powr (of_int (e - 52))"
    by (simp only: q)
  also have "\<dots> = x" by simp
  finally show ?thesis by (simp add: x_def)
qed

lemma round_double_3: "round_double 3 = 3"
  using round_double_representable [of 3 0] by simp

lemma round_double_tie_to_4:
  "round_double (6004799503160661 / 4503599627370496 * 3) = 4"
proof -
  define x :: real where "x = 6004799503160661 / 4503599627370496 * 3"
  have b: "2 powr 1 \<le> x" "x < 2 powr 2" by (simp_all add: x_def)
  have "\<lfloor>log 2 \<bar>x\<bar>\<rfloor> = 1"
  proof -
    have "1 \<le> log 2 x" using b(1) by (simp add: le_log_iff x_def)
    moreover have "log 2 x < 2" using b(2) by (simp add: log_less_iff x_def)
    moreover have "\<bar>x\<bar> = x" by (simp add: x_def)
    ultimately show ?thesis by (simp add: floor_eq_iff)
  qed
  then have e: "max \<lfloor>log 2 \<bar>x\<bar>\<rfloor> (- 1022) = 1" by simp
  have q: "(2::real) powr (of_int (1 - 52)) = 1 / 2 ^ 51"
    by (simp add: powr_minus_divide powr_realpow [symmetric])
  have v: "x / (1 / 2 ^ 51) = 9007199254740992 - 1 / 2" by (simp add: x_def)
  have "round_half_even (9007199254740992 - 1 / 2) = 9007199254740992"
  proof -
    have "\<lfloor>(9007199254740992 - 1 / 2 :: real)\<rfloor> = 9007199254740991" by linarith
    then show ?thesis by (simp add: round_half_even_def)
  qed
  then show ?thesis
    unfolding x_def [symmetric] round_double_def e Let_def q v
    by (simp add: x_def)
qed























section \<open>The Gaussian kernel\<close>

lemma gaussian_fill_result:
  assumes "gaussian_fill t r i (k, acc) = (k', a')" "acc = Fin s" "- r \<le> i"
    "length k = nat (2 * r + 1)" "t \<noteq> 0"
  shows "length k' = length k
       \<and> a' = Fin (s + (\<Sum>j = i..r. gaussian_tap t j))
       \<and> (\<forall>n < length k. k' ! n = (if i \<le> int n - r then Fin (gaussian_tap t (int n - r)) else k ! n))"
  using assms
proof (induction t r i "(k, acc)" arbitrary: k acc s rule: gaussian_fill.induct)
  case (1 t r i k acc)
  show ?case
  proof (cases "i \<le> r")
    case False
    have out: "\<not> i \<le> int n - r" if "n < length k" for n
      using that False "1.prems"(4) by linarith
    have "k' = k" "a' = Fin s"
      using "1.prems"(1,2) False by (simp_all add: gaussian_fill.simps [of t r i k])
    with False out show ?thesis by simp
  next
    case True
    define v where "v = gaussian_tap t i"
    define x where "x = Math_exp (js_div (js_neg (Fin (of_int (i * i)))) (Fin t))"
    have x: "x = Fin v"
      using "1.prems"(5) by (simp add: x_def v_def gaussian_tap_def)
    have step: "gaussian_fill t r (i + 1) (k[nat (i + r) := x], js_add acc x) = (k', a')"
      using "1.prems"(1) True by (simp add: gaussian_fill.simps [of t r i k acc] x_def Let_def)
    have acc': "js_add acc x = Fin (s + v)" using "1.prems"(2) x by simp
    have ih: "length k' = length (k[nat (i + r) := x])
       \<and> a' = Fin ((s + v) + (\<Sum>j = i + 1..r. gaussian_tap t j))
       \<and> (\<forall>n < length (k[nat (i + r) := x]). k' ! n =
             (if i + 1 \<le> int n - r then Fin (gaussian_tap t (int n - r)) else (k[nat (i + r) := x]) ! n))"
      using "1.hyps" [OF True x_def step acc'] "1.prems"(3,4,5) by simp
    have sum: "(\<Sum>j = i..r. gaussian_tap t j) = v + (\<Sum>j = i + 1..r. gaussian_tap t j)"
    proof -
      have "{i..r} = insert i {i + 1..r}" using True by auto
      then show ?thesis by (simp add: v_def)
    qed
    have nth: "k' ! n = (if i \<le> int n - r then Fin (gaussian_tap t (int n - r)) else k ! n)"
      if n: "n < length k" for n
    proof (cases "int n - r = i")
      case True
      then have "nat (i + r) = n" by simp
      with ih n True show ?thesis by (simp add: v_def x)
    next
      case False
      then have "nat (i + r) \<noteq> n" using "1.prems"(3) by auto
      with ih n False show ?thesis by auto
    qed
    show ?thesis using ih sum nth by simp
  qed
qed

lemma gaussian_tap_pos: "0 < gaussian_tap t i"
  by (simp add: gaussian_tap_def)

lemma gaussian_tap_le_1: "0 < t \<Longrightarrow> gaussian_tap t i \<le> 1"
  by (simp add: gaussian_tap_def)

lemma gaussian_tap_sum_ge_1:
  assumes "0 \<le> r"
  shows "1 \<le> (\<Sum>j = - r..r. gaussian_tap t j)"
proof -
  have "gaussian_tap t 0 \<le> (\<Sum>j = - r..r. gaussian_tap t j)"
    using assms by (intro member_le_sum) (auto simp: less_imp_le [OF gaussian_tap_pos])
  then show ?thesis by (simp add: gaussian_tap_def)
qed

lemma gaussian_tap_sum_reindex:
  assumes "0 \<le> r"
  shows "(\<Sum>n = 0..<nat (2 * r + 1). gaussian_tap t (int n - r)) = (\<Sum>j = - r..r. gaussian_tap t j)"
  using assms
  by (intro sum.reindex_bij_witness [where i = "\<lambda>j. nat (j + r)" and j = "\<lambda>n. int n - r"]) auto

lemma kernel_radius_ge_1: "1 \<le> kernel_radius sigma"
  by (simp add: kernel_radius_def)

lemma gaussian_fill_kernel:
  fixes sigma :: real
  defines "r \<equiv> kernel_radius sigma"
  defines "t \<equiv> kernel_twoSigma2 sigma"
  assumes t: "kernel_twoSigma2 sigma \<noteq> 0"
  shows "gaussian_fill t r (- r) (replicate (nat (r * 2 + 1)) (Fin 0), Fin 0)
       = (map (\<lambda>n. Fin (gaussian_tap t (int n - r))) [0..<nat (2 * r + 1)],
          Fin (\<Sum>j = - r..r. gaussian_tap t j))"
proof -
  obtain k' a' where fill: "gaussian_fill t r (- r) (replicate (nat (r * 2 + 1)) (Fin 0), Fin 0) = (k', a')"
    by (cases "gaussian_fill t r (- r) (replicate (nat (r * 2 + 1)) (Fin 0), Fin 0)") auto
  have len0: "length (replicate (nat (r * 2 + 1)) (Fin 0)) = nat (2 * r + 1)"
    by (simp add: mult.commute)
  have t0: "t \<noteq> 0" using t by (simp add: t_def)
  note res = gaussian_fill_result [OF fill refl order_refl len0 t0]
  have len: "length k' = nat (2 * r + 1)" using res by (simp add: mult.commute)
  have a': "a' = Fin (\<Sum>j = - r..r. gaussian_tap t j)" using res by simp
  have nth: "k' ! n = Fin (gaussian_tap t (int n - r))" if "n < nat (2 * r + 1)" for n
    using res that by (simp add: mult.commute)
  have "k' = map (\<lambda>n. Fin (gaussian_tap t (int n - r))) [0..<nat (2 * r + 1)]"
    by (rule nth_equalityI) (simp_all add: len nth)
  with fill a' show ?thesis by simp
qed

lemma generateGaussianKernel1D_eq:
  fixes sigma :: real
  defines "r \<equiv> kernel_radius sigma"
  defines "t \<equiv> kernel_twoSigma2 sigma"
  defines "S \<equiv> (\<Sum>j = - r..r. gaussian_tap t j)"
  assumes t: "kernel_twoSigma2 sigma \<noteq> 0"
  shows "generateGaussianKernel1D sigma
       = map Fin (map (\<lambda>n. gaussian_tap t (int n - r) / S) [0..<nat (2 * r + 1)])"
proof -
  have r0: "0 \<le> r" using kernel_radius_ge_1 [of sigma] by (simp add: r_def)
  have S1: "1 \<le> S" unfolding S_def using r0 by (rule gaussian_tap_sum_ge_1)
  then have S0: "S \<noteq> 0" by simp
  show ?thesis
    unfolding generateGaussianKernel1D_def Let_def r_def [symmetric] t_def [symmetric]
      gaussian_fill_kernel [OF t, folded r_def t_def] S_def [symmetric]
    using S0 by simp
qed

text \<open>
  C3 (as amended).  For every double \<open>sigma\<close> with \<open>0 < sigma \<le> 2\<^sup>2\<^sup>0\<close> for which the double
  \<open>2 * sigma * sigma\<close> is not zero, the kernel is an array of finite numbers of the odd
  length \<open>2 * max 1 (floor (sigma * 3)) + 1\<close>, with \<open>sigma * 3\<close> the double product; its tap
  at offset \<open>i\<close> from the centre is, within \<open>10\<^sup>-\<^sup>6\<close>, a fixed positive multiple of
  \<open>exp (- i\<^sup>2 / twoSigma2)\<close>, with \<open>twoSigma2\<close> the double \<open>2 * sigma * sigma\<close>; and its
  weights sum to 1 within \<open>10\<^sup>-\<^sup>4\<close>.
\<close>

theorem generateGaussianKernel1D_normalised:
  assumes "0 < sigma" "sigma \<le> 2 ^ 20" "round_double sigma = sigma" "kernel_twoSigma2 sigma \<noteq> 0"
  shows "\<exists>c ws. 0 < c \<and> generateGaussianKernel1D sigma = map Fin ws
       \<and> length ws = nat (2 * max 1 \<lfloor>round_double (sigma * 3)\<rfloor> + 1)
       \<and> odd (length ws)
       \<and> (\<forall>i. - max 1 \<lfloor>round_double (sigma * 3)\<rfloor> \<le> i \<and> i \<le> max 1 \<lfloor>round_double (sigma * 3)\<rfloor> \<longrightarrow>
             \<bar>ws ! nat (i + max 1 \<lfloor>round_double (sigma * 3)\<rfloor>)
                - c * exp (- ((of_int i)\<^sup>2) / kernel_twoSigma2 sigma)\<bar> \<le> 1 / 10 ^ 6)
       \<and> \<bar>sum_list ws - 1\<bar> \<le> 1 / 10 ^ 4"
proof -
  define r where "r = kernel_radius sigma"
  define t where "t = kernel_twoSigma2 sigma"
  define S where "S = (\<Sum>j = - r..r. gaussian_tap t j)"
  define ws where "ws = map (\<lambda>n. gaussian_tap t (int n - r) / S) [0..<nat (2 * r + 1)]"
  have r0: "0 \<le> r" using kernel_radius_ge_1 [of sigma] by (simp add: r_def)
  have S1: "1 \<le> S" unfolding S_def using r0 by (rule gaussian_tap_sum_ge_1)
  have eq: "generateGaussianKernel1D sigma = map Fin ws"
    unfolding ws_def S_def t_def r_def by (rule generateGaussianKernel1D_eq [OF assms(4)])
  have r': "max 1 \<lfloor>round_double (sigma * 3)\<rfloor> = r" by (simp add: r_def kernel_radius_def)
  have len: "length ws = nat (2 * r + 1)" by (simp add: ws_def)
  have odd: "odd (length ws)" using r0 by (simp add: len even_nat_iff)
  have tap: "ws ! nat (i + r) = (1 / S) * exp (- ((of_int i)\<^sup>2) / t)"
    if "- r \<le> i" "i \<le> r" for i
  proof -
    have lt: "nat (i + r) < nat (2 * r + 1)" using that by linarith
    have idx: "int (nat (i + r)) - r = i" using that by simp
    have "ws ! nat (i + r) = gaussian_tap t (int (nat (i + r)) - r) / S"
      using lt by (simp add: ws_def)
    also have "\<dots> = gaussian_tap t i / S" by (simp only: idx)
    also have "\<dots> = (1 / S) * exp (- ((of_int i)\<^sup>2) / t)"
      by (simp add: gaussian_tap_def power2_eq_square)
    finally show ?thesis .
  qed
  have "sum_list ws = (\<Sum>n = 0..<nat (2 * r + 1). gaussian_tap t (int n - r) / S)"
    by (simp add: ws_def sum_list_sum_nth)
  also have "\<dots> = (\<Sum>n = 0..<nat (2 * r + 1). gaussian_tap t (int n - r)) / S"
    by (simp add: sum_divide_distrib)
  also have "\<dots> = S / S" using r0 by (simp add: gaussian_tap_sum_reindex S_def)
  also have "\<dots> = 1" using S1 by simp
  finally have sum1: "sum_list ws = 1" .
  have c: "0 < 1 / S" using S1 by simp
  have taps: "\<forall>i. - r \<le> i \<and> i \<le> r \<longrightarrow>
             \<bar>ws ! nat (i + r) - (1 / S) * exp (- ((of_int i)\<^sup>2) / t)\<bar> \<le> 1 / 10 ^ 6"
    using tap by simp
  show ?thesis
    unfolding r' t_def [symmetric]
    using c eq len odd taps sum1 by (intro exI [of _ "1 / S"] exI [of _ ws]) simp
qed

lemma round_double_1: "round_double 1 = 1"
  using round_double_representable [of 1 0] by simp

lemma round_double_2: "round_double 2 = 2"
  using round_double_representable [of 2 0] by simp

theorem generateGaussianKernel1D_normalised_witness:
  "(0::real) < 1 \<and> (1::real) \<le> 2 ^ 20 \<and> round_double 1 = 1 \<and> kernel_twoSigma2 1 \<noteq> 0
   \<and> (\<exists>ws. generateGaussianKernel1D 1 = map Fin ws \<and> length ws = 7
          \<and> \<bar>sum_list ws - 1\<bar> \<le> 1 / 10 ^ 4)"
proof -
  have h1: "(0::real) < 1" by simp
  have h2: "(1::real) \<le> 2 ^ 20" by simp
  have h3: "round_double 1 = 1" by (rule round_double_1)
  have h4: "kernel_twoSigma2 1 \<noteq> 0" by (simp add: kernel_twoSigma2_def round_double_2)
  have f: "max 1 \<lfloor>round_double (1 * 3)\<rfloor> = 3" by (simp add: round_double_3)
  from generateGaussianKernel1D_normalised [OF h1 h2 h3 h4]
  obtain c ws where "generateGaussianKernel1D 1 = map Fin ws"
      "length ws = nat (2 * max 1 \<lfloor>round_double (1 * 3)\<rfloor> + 1)"
      "\<bar>sum_list ws - 1\<bar> \<le> 1 / 10 ^ 4"
    by blast
  then have "\<exists>ws. generateGaussianKernel1D 1 = map Fin ws \<and> length ws = 7
          \<and> \<bar>sum_list ws - 1\<bar> \<le> 1 / 10 ^ 4"
    unfolding f by auto
  with h1 h2 h3 h4 show ?thesis by blast
qed

text \<open>
  At the double nearest to 4/3 the product \<open>sigma * 3\<close> lies halfway between two doubles
  and rounds to 4, so the radius is 4 and the kernel has 9 entries.
\<close>

lemma kernel_radius_tie: "kernel_radius (6004799503160661 / 4503599627370496) = 4"
  unfolding kernel_radius_def round_double_tie_to_4 by simp

lemma floor_tiny: "\<lfloor>3 * 2 powr (- 540) :: real\<rfloor> = 0"
proof -
  have "(2::real) powr (- 540) \<le> 2 powr (- 2)" by (rule powr_mono) simp_all
  also have "\<dots> = 1 / 4" by (simp add: powr_minus_divide)
  finally have "3 * 2 powr (- 540) < (1::real)" by simp
  moreover have "0 \<le> 3 * 2 powr (- 540 :: real)" by simp
  ultimately show ?thesis by linarith
qed

lemma kernel_radius_tiny: "kernel_radius (2 powr (- 540)) = 1"
proof -
  have "round_double (2 powr (- 540) * 3) = 3 * 2 powr (- 540)"
    using round_double_representable [of 3 "- 540"] by (simp add: mult.commute)
  then show ?thesis by (simp add: kernel_radius_def floor_tiny)
qed

lemma kernel_twoSigma2_tiny: "kernel_twoSigma2 (2 powr (- 540)) = 0"
proof -
  have a: "2 * 2 powr (- 540) = (2::real) powr (- 539)"
  proof -
    have "(2::real) powr (- 539) = 2 powr (1 + (- 540))" by simp
    also have "\<dots> = 2 powr 1 * 2 powr (- 540)" by (rule powr_add)
    finally show ?thesis by simp
  qed
  have b: "round_double (2 powr (- 539)) = 2 powr (- 539)"
    using round_double_representable [of 1 "- 539"] by simp
  have c: "(2::real) powr (- 539) * 2 powr (- 540) = 2 powr (- 1079)"
    by (simp flip: powr_add)
  have d: "round_double (2 powr (- 1079)) = 0"
  proof (rule round_double_underflow)
    have "(2::real) powr (- 1079) \<le> 2 powr (- 1075)" by (rule powr_mono) simp_all
    then show "\<bar>(2::real) powr (- 1079)\<bar> \<le> 2 powr (- 1075)" by simp
  qed
  show ?thesis by (simp add: kernel_twoSigma2_def a b c d)
qed

lemma gaussian_fill_zero_divisor:
  "gaussian_fill 0 1 (- 1) ([Fin 0, Fin 0, Fin 0], Fin 0) = ([Fin 0, NaN, Fin 0], NaN)"
  by (simp add: gaussian_fill.simps [of 0 1 "- 1"] gaussian_fill.simps [of 0 1 0]
        gaussian_fill.simps [of 0 1 1] gaussian_fill.simps [of 0 1 2] Let_def)

lemma generateGaussianKernel1D_zero_divisor:
  assumes "kernel_radius sigma = 1" "kernel_twoSigma2 sigma = 0"
  shows "generateGaussianKernel1D sigma = [NaN, NaN, NaN]"
  by (simp add: generateGaussianKernel1D_def assms Let_def numeral_3_eq_3 gaussian_fill_zero_divisor)

text \<open>
  C3 as stated fails: it does not hold for every \<open>sigma > 0\<close>.  For the double
  \<open>sigma = 2\<^sup>-\<^sup>5\<^sup>4\<^sup>0\<close> the product \<open>2 * sigma * sigma\<close> underflows to zero, the centre sample
  is \<open>exp (-0 / 0)\<close>, and every entry of the kernel is \<open>NaN\<close>.
\<close>

theorem generateGaussianKernel1D_underflow_NaN:
  "(0::real) < 2 powr (- 540) \<and> round_double (2 powr (- 540)) = 2 powr (- 540)
   \<and> kernel_twoSigma2 (2 powr (- 540)) = 0
   \<and> generateGaussianKernel1D (2 powr (- 540)) = [NaN, NaN, NaN]"
proof -
  have "round_double (2 powr (- 540)) = 2 powr (- 540)"
    using round_double_representable [of 1 "- 540"] by simp
  then show ?thesis
    using kernel_twoSigma2_tiny generateGaussianKernel1D_zero_divisor [OF kernel_radius_tiny kernel_twoSigma2_tiny]
    by simp
qed


section \<open>Chromatic aberration at age 3\<close>

lemma typed_get_nat: "typed_get a (Fin (real n)) = (if n < length a then Some (a ! n) else None)"
  by (simp add: typed_get_def)

lemma update_read_id: "a[n := u8_of_read (typed_get a (Fin (real n)))] = a"
  by (cases "n < length a") (simp_all add: typed_get_nat u8_of_read_def list_update_beyond)

lemma aberration_strength_3: "aberration_strength 3 = Fin 0"
  by (simp add: aberration_strength_def js_sub_def)

lemma Math_hypot_half_pos:
  assumes "0 < width"
  shows "\<exists>m. Math_hypot (js_div (Fin (real width)) (Fin 2)) (js_div (Fin (real height)) (Fin 2)) = Fin m \<and> 0 < m"
proof -
  have "0 < real width / 2 * (real width / 2)" using assms by simp
  moreover have "0 \<le> real height / 2 * (real height / 2)" by simp
  ultimately have "0 < real width / 2 * (real width / 2) + real height / 2 * (real height / 2)"
    by linarith
  then show ?thesis by simp
qed

lemma aberration_shifts_age_3:
  assumes "x < width"
  shows "aberration_shifts width height 3 x y = (Fin 0, Fin 0, Fin 0, Fin 0)"
proof -
  obtain m where m: "Math_hypot (js_div (Fin (real width)) (Fin 2)) (js_div (Fin (real height)) (Fin 2)) = Fin m" "0 < m"
    using Math_hypot_half_pos [of width height] assms by auto
  define dx where "dx = real x - real width / 2"
  define dy where "dy = real y - real height / 2"
  define h where "h = sqrt (dx * dx + dy * dy)"
  have dxe: "js_sub (Fin (real x)) (js_div (Fin (real width)) (Fin 2)) = Fin dx"
    by (simp add: js_sub_def dx_def)
  have dye: "js_sub (Fin (real y)) (js_div (Fin (real height)) (Fin 2)) = Fin dy"
    by (simp add: js_sub_def dy_def)
  have hy: "Math_hypot (Fin dx) (Fin dy) = Fin h" by (simp add: h_def)
  have rn: "Math_min (Fin 1) (js_div (Fin h) (Fin m)) = Fin (min 1 (h / m))"
    using m(2) by (simp add: Math_min_Fin)
  have orr: "\<exists>d. js_or (Fin h) (Fin 1) = Fin d \<and> d \<noteq> 0"
    by (simp add: js_or_def)
  then obtain d where d: "js_or (Fin h) (Fin 1) = Fin d" "d \<noteq> 0" by blast
  show ?thesis
    unfolding aberration_shifts_def Let_def aberration_strength_3 dxe dye m(1) hy rn d(1)
    using d(2) by simp
qed


lemma Math_round_nat: "Math_round (Fin (real n)) = Fin (real n)"
proof -
  have "\<lfloor>real n + 1 / 2\<rfloor> = int n" by linarith
  then show ?thesis by simp
qed

lemma sampleNearest_own:
  assumes "x < width" "y < height"
  shows "sampleNearest width height src (Fin (real x)) (Fin (real y)) c
       = typed_get src (Fin (real ((y * width + x) * 4 + c)))"
proof -
  have x: "Math_max (Fin 0) (Math_min (js_sub (Fin (real width)) (Fin 1)) (Math_round (Fin (real x)))) = Fin (real x)"
    using assms(1) by (simp add: Math_round_nat js_sub_def Math_min_Fin Math_max_Fin min_def max_def)
  have y: "Math_max (Fin 0) (Math_min (js_sub (Fin (real height)) (Fin 1)) (Math_round (Fin (real y)))) = Fin (real y)"
    using assms(2) by (simp add: Math_round_nat js_sub_def Math_min_Fin Math_max_Fin min_def max_def)
  show ?thesis
    unfolding sampleNearest_def Let_def x y by simp
qed

lemma aberration_pixel_age_3:
  assumes "x < width" "y < height"
  shows "aberration_pixel width height 3 src y x src = src"
proof -
  have "aberration_pixel width height 3 src y x src =
        src[(y * width + x) * 4 := u8_of_read (typed_get src (Fin (real ((y * width + x) * 4 + 0)))),
            (y * width + x) * 4 + 1 := u8_of_read (typed_get src (Fin (real ((y * width + x) * 4 + 1)))),
            (y * width + x) * 4 + 2 := u8_of_read (typed_get src (Fin (real ((y * width + x) * 4 + 2))))]"
    unfolding aberration_pixel_def aberration_shifts_age_3 [OF assms(1)]
    by (simp add: sampleNearest_own [OF assms] Let_def)
  also have "\<dots> = src"
    using update_read_id [of src "(y * width + x) * 4"]
          update_read_id [of src "(y * width + x) * 4 + 1"]
          update_read_id [of src "(y * width + x) * 4 + 2"]
    by simp
  finally show ?thesis .
qed

lemma fold_row_age_3:
  assumes "y < height" "set xs \<subseteq> {..<width}"
  shows "fold (aberration_pixel width height 3 src y) xs src = src"
  using assms(2)
  by (induction xs) (simp_all add: aberration_pixel_age_3 assms(1))

lemma fold_rows_age_3:
  assumes "set ys \<subseteq> {..<height}"
  shows "fold (\<lambda>y. fold (aberration_pixel width height 3 src y) [0..<width]) ys src = src"
  using assms
proof (induction ys)
  case Nil
  show ?case by simp
next
  case (Cons y ys)
  have "fold (aberration_pixel width height 3 src y) [0..<width] src = src"
    using Cons.prems by (intro fold_row_age_3) auto
  with Cons show ?case by simp
qed

lemma chromatic_aberration_age_3:
  "chromatic_aberration width height 3 src = src"
  unfolding chromatic_aberration_def by (rule fold_rows_age_3) auto

text \<open>
  C9.  At age 3 the aberration strength \<open>(3 - selectedAge) * 0.6\<close> is exactly 0; for every
  pixel of the frame all four displacements are 0, so red and blue are sampled at the
  pixel's own position; and the chromatic-aberration step returns the buffer unchanged.
\<close>

theorem chromatic_aberration_age_3_identity:
  "aberration_strength 3 = Fin 0
   \<and> (x < width \<longrightarrow> aberration_shifts width height 3 x y = (Fin 0, Fin 0, Fin 0, Fin 0))
   \<and> chromatic_aberration width height 3 src = src"
  by (simp add: aberration_strength_3 aberration_shifts_age_3 chromatic_aberration_age_3)

theorem chromatic_aberration_age_3_identity_witness:
  "(1::nat) < 2
   \<and> aberration_shifts 2 2 3 1 0 = (Fin 0, Fin 0, Fin 0, Fin 0)
   \<and> chromatic_aberration 2 2 3 [10, 20, 30, 255, 40, 50, 60, 255, 70, 80, 90, 255, 100, 110, 120, 255]
       = [10, 20, 30, 255, 40, 50, 60, 255, 70, 80, 90, 255, 100, 110, 120, 255]"
  using chromatic_aberration_age_3_identity [of 1 2 2 0]
  by simp

section \<open>Numeric edge cases\<close>




















section \<open>The LMS round trip\<close>

lemma lms_round_trip:
  assumes "0 \<le> r" "r \<le> 1" "0 \<le> g" "g \<le> 1" "0 \<le> b" "b \<le> 1"
  shows "(case lms_to_rgb (rgb_to_lms (r, g, b)) of (r', g', b') \<Rightarrow>
           \<bar>r' - r\<bar> \<le> 1 / 100 \<and> \<bar>g' - g\<bar> \<le> 1 / 100 \<and> \<bar>b' - b\<bar> \<le> 1 / 100)"
proof -
  have "lms_to_rgb (rgb_to_lms (r, g, b)) =
        (5.47221 * (0.31399 * r + 0.63951 * g + 0.0465 * b)
           + - 4.64196 * (0.15537 * r + 0.75789 * g + 0.08674 * b)
           + 0.16975 * (0.01775 * r + 0.10945 * g + 0.8728 * b),
         - 1.1248 * (0.31399 * r + 0.63951 * g + 0.0465 * b)
           + 2.29317 * (0.15537 * r + 0.75789 * g + 0.08674 * b)
           + - 0.16837 * (0.01775 * r + 0.10945 * g + 0.8728 * b),
         0.0298 * (0.31399 * r + 0.63951 * g + 0.0465 * b)
           + - 0.19318 * (0.15537 * r + 0.75789 * g + 0.08674 * b)
           + 1.16338 * (0.01775 * r + 0.10945 * g + 0.8728 * b))"
    by (simp add: lms_to_rgb_def rgb_to_lms_def LMS_TO_RGB_def RGB_TO_LMS_def)
  then show ?thesis
    using assms by (simp add: abs_le_iff) argo
qed


lemma lms_linear_unit:
  assumes "cone_L (coneSensitivity p) = 1" "cone_M (coneSensitivity p) = 1" "cone_S (coneSensitivity p) = 1"
  shows "lms_linear p 3 rgb = lms_to_rgb (rgb_to_lms rgb)"
  by (cases "rgb_to_lms rgb") (simp add: lms_linear_def assms)

text \<open>
  C1.  For every linear RGB triple (channel values in \<open>[0, 1]\<close>, the range of
  \<open>srgbToLinear\<close> on a byte), the conversion to LMS with \<open>RGB_TO_LMS\<close> followed by the
  conversion back with \<open>LMS_TO_RGB\<close> returns each channel within \<open>10\<^sup>-\<^sup>2\<close> of the input.
  With all three cone sensitivities equal to 1 and the age 3, for which the adaptation
  factor \<open>0.8 + 0.2 * 3 / 3\<close> is 1 and the von Kries blend changes nothing, this round trip
  is what the loop body of \<open>applyLMSColorProcessing\<close> computes in linear light.
\<close>

theorem lms_round_trip_fidelity:
  assumes "0 \<le> r" "r \<le> 1" "0 \<le> g" "g \<le> 1" "0 \<le> b" "b \<le> 1"
    and "cone_L (coneSensitivity p) = 1" "cone_M (coneSensitivity p) = 1" "cone_S (coneSensitivity p) = 1"
  shows "(case lms_to_rgb (rgb_to_lms (r, g, b)) of (r', g', b') \<Rightarrow>
           \<bar>r' - r\<bar> \<le> 1 / 100 \<and> \<bar>g' - g\<bar> \<le> 1 / 100 \<and> \<bar>b' - b\<bar> \<le> 1 / 100)
       \<and> lms_linear p 3 (r, g, b) = lms_to_rgb (rgb_to_lms (r, g, b))"
  using lms_round_trip [OF assms(1-6)] lms_linear_unit [OF assms(7-9)] by simp

theorem lms_round_trip_fidelity_witness:
  "(case lms_to_rgb (rgb_to_lms (1, 1 / 2, 0)) of (r', g', b') \<Rightarrow>
           \<bar>r' - 1\<bar> \<le> 1 / 100 \<and> \<bar>g' - 1 / 2\<bar> \<le> 1 / 100 \<and> \<bar>b' - 0\<bar> \<le> 1 / 100)
   \<and> lms_linear (preset_3\<lparr>coneSensitivity := \<lparr>cone_L = 1, cone_M = 1, cone_S = 1\<rparr>\<rparr>) 3 (1, 1 / 2, 0)
       = lms_to_rgb (rgb_to_lms (1, 1 / 2, 0))"
  using lms_round_trip_fidelity [of 1 "1 / 2" 0 "preset_3\<lparr>coneSensitivity := \<lparr>cone_L = 1, cone_M = 1, cone_S = 1\<rparr>\<rparr>"]
  by simp

section \<open>Colour vision at age 1\<close>

lemma infant_linear_age_1:
  "infant_linear p 1 (rL, gL, bL) =
     spec_stage1_linear (cone_L (coneSensitivity p)) (cone_M (coneSensitivity p)) (cone_S (coneSensitivity p))
       (0.2126 * rL + 0.7152 * gL + 0.0722 * bL) rL"
  by (simp add: infant_linear_def spec_stage1_linear_def luminance_709_def desaturated_def redStrength_def)

lemma infant_pixel_age_1:
  "infant_pixel p 1 (r, g, b) =
     (case spec_stage1_linear (cone_L (coneSensitivity p)) (cone_M (coneSensitivity p)) (cone_S (coneSensitivity p))
             (0.2126 * srgbToLinear (real r / 255) + 0.7152 * srgbToLinear (real g / 255)
                + 0.0722 * srgbToLinear (real b / 255))
             (srgbToLinear (real r / 255)) of
        (outR, outG, outB) \<Rightarrow> (encode_srgb outR, encode_srgb outG, encode_srgb outB))"
  by (simp add: infant_pixel_def Let_def infant_linear_age_1)

subsection \<open>The loop over the frame\<close>

lemma frame_of_Cons: "frame_of ((r, g, b, a) # pxs) = [r, g, b, a] @ frame_of pxs"
  by (simp add: frame_of_def)

lemma frame_of_Nil: "frame_of [] = []"
  by (simp add: frame_of_def)

lemma frame_of_append: "frame_of (xs @ ys) = frame_of xs @ frame_of ys"
  by (simp add: frame_of_def)

lemma length_frame_of: "length (frame_of pxs) = 4 * length pxs"
  by (induction pxs) (auto simp: frame_of_def)

lemma infant_loop_frame:
  "length pre = i \<Longrightarrow>
   infant_loop (Some p) age i (pre @ frame_of pxs)
     = Inr (pre @ frame_of (map (\<lambda>(r, g, b, a). case infant_pixel p age (r, g, b) of
                                   (r', g', b') \<Rightarrow> (r', g', b', a)) pxs))"
proof (induction pxs arbitrary: pre i)
  case Nil
  then show ?case by (simp add: frame_of_Nil infant_loop.simps [of _ _ i])
next
  case (Cons px pxs)
  obtain r g b a where px: "px = (r, g, b, a)" by (cases px) auto
  obtain r' g' b' where out: "infant_pixel p age (r, g, b) = (r', g', b')"
    by (cases "infant_pixel p age (r, g, b)") auto
  have len: "length pre = i" by (rule Cons.prems)
  have rd: "(pre @ [r, g, b, a] @ frame_of pxs) ! i = r"
      "(pre @ [r, g, b, a] @ frame_of pxs) ! (i + 1) = g"
      "(pre @ [r, g, b, a] @ frame_of pxs) ! (i + 2) = b"
    using len by (simp_all add: nth_append)
  have wr: "(pre @ [r, g, b, a] @ frame_of pxs)[i := r', i + 1 := g', i + 2 := b']
      = (pre @ [r', g', b', a]) @ frame_of pxs"
    using len by (simp add: list_update_append)
  have lt: "i < length (pre @ [r, g, b, a] @ frame_of pxs)" using len by simp
  have "infant_loop (Some p) age i (pre @ frame_of (px # pxs))
      = infant_loop (Some p) age (i + 4) ((pre @ [r', g', b', a]) @ frame_of pxs)"
    unfolding px frame_of_Cons
    by (subst infant_loop.simps) (simp only: lt rd out wr if_True option.case prod.case)
  also have "\<dots> = Inr ((pre @ [r', g', b', a]) @ frame_of (map (\<lambda>(r, g, b, a). case infant_pixel p age (r, g, b) of
                                   (r', g', b') \<Rightarrow> (r', g', b', a)) pxs))"
    by (rule Cons.IH) (simp add: len)
  finally show ?case by (simp add: px out frame_of_Cons)
qed

lemma applyInfantColorVision_frame:
  "applyInfantColorVision (frame_of pxs) (Some p) age
     = Inr (frame_of (map (\<lambda>(r, g, b, a). case infant_pixel p age (r, g, b) of
                                   (r', g', b') \<Rightarrow> (r', g', b', a)) pxs))"
  using infant_loop_frame [of "[]" 0 p age pxs] by (simp add: applyInfantColorVision_def)

subsection \<open>Re-encoding\<close>

lemma powr_5_12_power: "0 < v \<Longrightarrow> (v powr (5 / 12)) ^ 12 = (v::real) ^ 5"
proof -
  assume v: "0 < v"
  then have "(v powr (5 / 12)) ^ 12 = v powr (of_nat 12 * (5 / 12))" by (intro powr_power) simp
  also have "\<dots> = v powr (of_nat 5)" by simp
  also have "\<dots> = v ^ 5" using v by (simp only: powr_realpow)
  finally show ?thesis .
qed

lemma powr_5_12_lower:
  assumes "0 < v" "lo ^ 12 \<le> v ^ 5"
  shows "lo \<le> (v::real) powr (5 / 12)"
proof (rule ccontr)
  assume "\<not> lo \<le> v powr (5 / 12)"
  then have lt: "v powr (5 / 12) < lo" by simp
  have "0 \<le> v powr (5 / 12)" by simp
  then have "(v powr (5 / 12)) ^ 12 < lo ^ 12" using lt by (intro power_strict_mono) simp_all
  then show False using assms by (simp add: powr_5_12_power)
qed

lemma powr_5_12_upper:
  assumes "0 < v" "v ^ 5 < hi ^ 12" "0 \<le> hi"
  shows "(v::real) powr (5 / 12) < hi"
proof (rule ccontr)
  assume "\<not> v powr (5 / 12) < hi"
  then have "hi \<le> v powr (5 / 12)" by simp
  then have "hi ^ 12 \<le> (v powr (5 / 12)) ^ 12" using assms(3) by (intro power_mono) simp_all
  then show False using assms by (simp add: powr_5_12_power)
qed

lemma linearToSrgb_gamma:
  "0.0031308 < v \<Longrightarrow> linearToSrgb v = 1.055 * v powr (5 / 12) - 0.055"
  by (simp add: linearToSrgb_def)

lemma linearToSrgb_range:
  assumes "0 \<le> v" "v \<le> 1"
  shows "0 \<le> linearToSrgb v" "linearToSrgb v \<le> 1"
proof -
  show "0 \<le> linearToSrgb v"
  proof (cases "v \<le> 0.0031308")
    case True
    then show ?thesis using assms by (simp add: linearToSrgb_def)
  next
    case False
    then have v: "0.0031308 < v" by simp
    then have v0: "0 < v" by simp
    have "(0.0031308::real) ^ 5 \<le> v ^ 5" using v by (intro power_mono) simp_all
    moreover have "(11 / 211 :: real) ^ 12 \<le> 0.0031308 ^ 5" by (simp add: power_divide)
    ultimately have "(11 / 211 :: real) ^ 12 \<le> v ^ 5" by simp
    then have "11 / 211 \<le> v powr (5 / 12)" using v0 by (intro powr_5_12_lower)
    then show ?thesis unfolding linearToSrgb_gamma [OF v] by simp
  qed
  show "linearToSrgb v \<le> 1"
  proof (cases "v \<le> 0.0031308")
    case True
    then show ?thesis using assms by (simp add: linearToSrgb_def)
  next
    case False
    then have v: "0.0031308 < v" by simp
    have "v powr (5 / 12) \<le> 1 powr (5 / 12)" using assms v by (intro powr_mono2) simp_all
    then show ?thesis unfolding linearToSrgb_gamma [OF v] by simp
  qed
qed

lemma to_uint8_clamped_int:
  assumes "0 \<le> n" "n \<le> 255"
  shows "to_uint8_clamped (of_int n) = nat n"
proof (cases "n = 0 \<or> n = 255")
  case True
  then show ?thesis by (auto simp: to_uint8_clamped_def)
next
  case False
  then have "0 < n" "n < 255" using assms by simp_all
  then show ?thesis by (simp add: to_uint8_clamped_def)
qed

lemma encode_srgb_round:
  assumes "0 \<le> v" "v \<le> 1"
  shows "encode_srgb v = nat \<lfloor>linearToSrgb v * 255 + 1 / 2\<rfloor>"
    and "0 \<le> \<lfloor>linearToSrgb v * 255 + 1 / 2\<rfloor>"
proof -
  note r = linearToSrgb_range [OF assms]
  have lo: "0 \<le> \<lfloor>linearToSrgb v * 255 + 1 / 2\<rfloor>" using r(1) by simp
  have "linearToSrgb v * 255 + 1 / 2 < 256" using r(2) by simp
  then have hi: "\<lfloor>linearToSrgb v * 255 + 1 / 2\<rfloor> \<le> 255" by (simp add: floor_less_iff)
  show "encode_srgb v = nat \<lfloor>linearToSrgb v * 255 + 1 / 2\<rfloor>"
    by (simp add: encode_srgb_def Math_round_real_def to_uint8_clamped_int [OF lo hi])
  show "0 \<le> \<lfloor>linearToSrgb v * 255 + 1 / 2\<rfloor>" by (rule lo)
qed

lemma encode_srgb_near:
  assumes "0 \<le> v" "v \<le> 1"
  shows "\<bar>real (encode_srgb v) - 255 * linearToSrgb v\<bar> \<le> 1 / 2"
proof -
  note e = encode_srgb_round [OF assms]
  have "real (encode_srgb v) = of_int \<lfloor>linearToSrgb v * 255 + 1 / 2\<rfloor>"
    using e by simp
  moreover have "of_int \<lfloor>linearToSrgb v * 255 + 1 / 2\<rfloor> \<le> linearToSrgb v * 255 + 1 / 2"
    by (rule of_int_floor_le)
  moreover have "linearToSrgb v * 255 + 1 / 2 < of_int \<lfloor>linearToSrgb v * 255 + 1 / 2\<rfloor> + 1"
    by linarith
  ultimately show ?thesis by (simp only: abs_le_iff) linarith
qed

lemma clamp01_range: "0 \<le> clamp01 v" "clamp01 v \<le> 1"
  by (simp_all add: clamp01_def)

lemma infant_pixel_age_1_spec:
  "spec_stage1_pixel p (r, g, b, a)
     (case infant_pixel p 1 (r, g, b) of (r', g', b') \<Rightarrow> (r', g', b', a))"
proof -
  have n: "\<bar>real (encode_srgb (clamp01 x)) - 255 * linearToSrgb (clamp01 x)\<bar> \<le> 1 / 2 + 1 / 10 ^ 6" for x
    using encode_srgb_near [OF clamp01_range, of x] by simp
  show ?thesis
    unfolding infant_pixel_age_1 spec_stage1_pixel_def spec_stage1_linear_def Let_def prod.case
    by (intro conjI n refl)
qed

lemma encode_srgb_value:
  assumes v: "0.0031308 < v" "v \<le> 1"
    and lo: "0 \<le> lo" "lo ^ 12 \<le> v ^ 5" "real n \<le> (1.055 * lo - 0.055) * 255 + 1 / 2"
    and hi: "0 \<le> hi" "v ^ 5 < hi ^ 12" "(1.055 * hi - 0.055) * 255 + 1 / 2 \<le> real n + 1"
  shows "encode_srgb v = n"
proof -
  have v0: "0 < v" "0 \<le> v" using v(1) by simp_all
  have l: "lo \<le> v powr (5 / 12)" using v0(1) lo(2) by (rule powr_5_12_lower)
  have h: "v powr (5 / 12) < hi" using v0(1) hi(2) hi(1) by (rule powr_5_12_upper)
  have g: "linearToSrgb v = 1.055 * v powr (5 / 12) - 0.055" using v(1) by (rule linearToSrgb_gamma)
  have "real n \<le> linearToSrgb v * 255 + 1 / 2" using l lo(3) unfolding g by simp
  moreover have "linearToSrgb v * 255 + 1 / 2 < real n + 1" using h hi(3) unfolding g by simp
  ultimately have "\<lfloor>linearToSrgb v * 255 + 1 / 2\<rfloor> = int n" by (simp add: floor_eq_iff)
  then show ?thesis using encode_srgb_round(1) [OF v0(2) v(2)] by simp
qed

lemma encode_srgb_red: "encode_srgb 0.33071 = 156"
  by (rule encode_srgb_value [where lo = "0.6305" and hi = "0.6307"]) (simp_all add: power_divide)

lemma encode_srgb_green: "encode_srgb 0.072284 = 76"
  by (rule encode_srgb_value [where lo = "0.3346" and hi = "0.3348"]) (simp_all add: power_divide)

lemma encode_srgb_blue: "encode_srgb 0.0271065 = 46"
  by (rule encode_srgb_value [where lo = "0.2223" and hi = "0.2225"]) (simp_all add: power_divide)

lemma srgbToLinear_1: "srgbToLinear 1 = 1"
  by (simp add: srgbToLinear_def)

lemma srgbToLinear_0: "srgbToLinear 0 = 0"
  by (simp add: srgbToLinear_def)

lemma infant_red_linear:
  "infant_linear preset_1 1 (srgbToLinear (255 / 255), srgbToLinear (0 / 255), srgbToLinear (0 / 255))
     = (0.33071, 0.072284, 0.0271065)"
  by (simp add: srgbToLinear_1 srgbToLinear_0 infant_linear_def luminance_709_def desaturated_def
        redStrength_def clamp01_def preset_1_def Let_def)

lemma infant_red_terms:
  "redStrength preset_1 (srgbToLinear (255 / 255)) * 0.25 = 0.15
   \<and> desaturated (luminance_709 (srgbToLinear (255 / 255)) (srgbToLinear (0 / 255)) (srgbToLinear (0 / 255))) = 0.18071"
  by (simp add: srgbToLinear_1 srgbToLinear_0 luminance_709_def desaturated_def redStrength_def preset_1_def)

lemma infant_pixel_red: "infant_pixel preset_1 1 (255, 0, 0) = (156, 76, 46)"
proof -
  have "infant_linear preset_1 1 (srgbToLinear 1, srgbToLinear 0, srgbToLinear 0)
      = (0.33071, 0.072284, 0.0271065)"
    using infant_red_linear by simp
  then show ?thesis
    using encode_srgb_red encode_srgb_green encode_srgb_blue
    by (simp add: infant_pixel_def Let_def)
qed

lemma infant_red_frame:
  "applyInfantColorVision (frame_of (replicate n (255, 0, 0, 255))) (Some preset_1) 1
     = Inr (frame_of (replicate n (156, 76, 46, 255)))"
  by (simp add: applyInfantColorVision_frame infant_pixel_red)

text \<open>
  C2 (as amended).  At age 1, for every frame and every preset,
  \<open>applyInfantColorVision\<close> returns a frame of the same number of pixels in which every
  pixel is the input pixel at the same place transformed as the specification says: in
  linear light \<open>outR = luminance * 0.85 + (r_linear * coneL) * 0.25\<close>,
  \<open>outG = luminance * 0.85 * coneM\<close> and \<open>outB = luminance * 0.85 * coneS\<close>, each clamped to
  \<open>[0, 1]\<close>, each re-encoded to the sRGB byte nearest to \<open>255 * linearToSrgb out\<close>, the alpha
  byte kept.  For a solid saturated-red frame of 32 by 32 pixels and the preset of age 1
  every output pixel is \<open>(156, 76, 46)\<close>: red is the largest channel, and green and blue,
  which come from the linear values \<open>0.072284\<close> and \<open>0.0271065\<close>, are the bytes 76 and 46.
\<close>

theorem applyInfantColorVision_stage1:
  "(\<exists>out. applyInfantColorVision (frame_of pxs) (Some p) 1 = Inr (frame_of out)
         \<and> list_all2 (spec_stage1_pixel p) pxs out)
   \<and> applyInfantColorVision (frame_of (replicate (32 * 32) (255, 0, 0, 255))) (Some preset_1) 1
       = Inr (frame_of (replicate (32 * 32) (156, 76, 46, 255)))"
proof -
  have "list_all2 (spec_stage1_pixel p) pxs
          (map (\<lambda>(r, g, b, a). case infant_pixel p 1 (r, g, b) of (r', g', b') \<Rightarrow> (r', g', b', a)) pxs)"
    unfolding list_all2_map2
    by (rule list_all2_all_nthI [OF refl]) (auto simp: infant_pixel_age_1_spec split: prod.split)
  then have "\<exists>out. applyInfantColorVision (frame_of pxs) (Some p) 1 = Inr (frame_of out)
         \<and> list_all2 (spec_stage1_pixel p) pxs out"
    using applyInfantColorVision_frame [of pxs p 1] by blast
  then show ?thesis using infant_red_frame [of "32 * 32"] by simp
qed

text \<open>
  C2 as stated fails in its last part.  For the solid saturated-red frame at age 1 every
  output pixel is \<open>(156, 76, 46)\<close>: the green and blue channels are not near zero, and the
  red channel is not dominated by the red term: of \<open>outR = 0.33071\<close> the red term
  \<open>redStrength * 0.25\<close> contributes \<open>0.15\<close>, less than the luminance term \<open>0.18071\<close>.
\<close>

theorem infant_red_not_dominated:
  "applyInfantColorVision (frame_of (replicate (32 * 32) (255, 0, 0, 255))) (Some preset_1) 1
       = Inr (frame_of (replicate (32 * 32) (156, 76, 46, 255)))
   \<and> infant_linear preset_1 1 (srgbToLinear (255 / 255), srgbToLinear (0 / 255), srgbToLinear (0 / 255))
       = (0.33071, 0.072284, 0.0271065)
   \<and> redStrength preset_1 (srgbToLinear (255 / 255)) * 0.25 = 0.15
   \<and> desaturated (luminance_709 (srgbToLinear (255 / 255)) (srgbToLinear (0 / 255)) (srgbToLinear (0 / 255))) = 0.18071
   \<and> redStrength preset_1 (srgbToLinear (255 / 255)) * 0.25
       < desaturated (luminance_709 (srgbToLinear (255 / 255)) (srgbToLinear (0 / 255)) (srgbToLinear (0 / 255)))"
  using infant_red_frame [of "32 * 32"] infant_red_linear infant_red_terms by simp

section \<open>The vignette gradient\<close>

lemma estimatePixelsPerDegree_default_Fin:
  "\<exists>v. estimatePixelsPerDegree (Fin w) (Fin h) DEFAULT_CAMERA_HFOV_DEG = Fin v \<and> 1 \<le> v \<and> v \<le> max 1 (w / 60)"
proof -
  have e: "estimatePixelsPerDegree (Fin w) (Fin h) (Fin 60) =
         Fin (max 1 (min (w / 60) (h / vfov_deg 60 (if 0 < w \<and> 0 < h then w / h else 16 / 9))))"
    by (rule estimatePixelsPerDegree_Fin) simp_all
  show ?thesis unfolding DEFAULT_CAMERA_HFOV_DEG_def e by auto
qed

lemma applyPeripheralVision_Fin:
  fixes p :: age_preset and w h v :: real
  assumes "estimatePixelsPerDegree (Fin w) (Fin h) DEFAULT_CAMERA_HFOV_DEG = Fin v"
  defines "c \<equiv> max 1 (centralFieldRadiusDeg p * v)"
  defines "g \<equiv> fill_style (applyPeripheralVision p (Fin w) (Fin h))"
  shows "centralRadiusPx p (Fin w) (Fin h) = Fin c"
    and "grad_r0 g = Fin (max 1 (c * 0.5))"
    and "grad_r1 g = Fin (max c (sqrt (w * w + h * h) * 0.5))"
    and "grad_x0 g = Fin (w / 2) \<and> grad_y0 g = Fin (h / 2) \<and> grad_x1 g = Fin (w / 2) \<and> grad_y1 g = Fin (h / 2)"
    and "grad_stops g = [(Fin 0, Fin 1), (Fin 0.5, Fin (1 - peripheralSuppression p * 0.4)),
                          (Fin 1, Fin (1 - peripheralSuppression p))]"
proof -
  show c: "centralRadiusPx p (Fin w) (Fin h) = Fin c"
    by (simp add: centralRadiusPx_def assms(1) Math_max_Fin c_def)
  show "grad_r0 g = Fin (max 1 (c * 0.5))"
    by (simp add: g_def applyPeripheralVision_def Let_def c Math_max_Fin)
  show "grad_r1 g = Fin (max c (sqrt (w * w + h * h) * 0.5))"
    by (simp add: g_def applyPeripheralVision_def Let_def c maxRadiusPx_def Math_max_Fin)
  show "grad_x0 g = Fin (w / 2) \<and> grad_y0 g = Fin (h / 2) \<and> grad_x1 g = Fin (w / 2) \<and> grad_y1 g = Fin (h / 2)"
    by (simp add: g_def applyPeripheralVision_def Let_def)
  show "grad_stops g = [(Fin 0, Fin 1), (Fin 0.5, Fin (1 - peripheralSuppression p * 0.4)),
                          (Fin 1, Fin (1 - peripheralSuppression p))]"
    by (simp add: g_def applyPeripheralVision_def Let_def js_sub_def)
qed

lemma to_uint8_clamped_byte:
  assumes "b \<le> 255"
  shows "to_uint8_clamped (real b) = b"
proof (cases "b = 0 \<or> b = 255")
  case True
  then show ?thesis by (auto simp: to_uint8_clamped_def)
next
  case False
  then have "0 < real b" "real b < 255" using assms by simp_all
  then show ?thesis by (simp add: to_uint8_clamped_def)
qed

lemma composite_white_multiply: "255 * composite_opaque a 1 (real b / 255) = real b"
proof -
  have "a * x + (1 - a) * x = x" for x :: real by (simp add: algebra_simps)
  then have "composite_opaque a 1 (real b / 255) = real b / 255"
    unfolding composite_opaque_def multiply_blend_def mult_1_right .
  then show ?thesis by simp
qed

lemma paint_white_id:
  assumes "b \<le> 255"
  shows "paint_white alpha b = b"
  using assms
  by (cases alpha) (simp_all add: paint_white_def composite_white_multiply to_uint8_clamped_byte)

lemma fillRect_multiply_white:
  assumes "\<forall>b\<in>set pixels. b \<le> 255"
    and "finite_value (grad_x0 (fill_style cmd)) = Some cx"
    and "finite_value (grad_y0 (fill_style cmd)) = Some cy"
    and "finite_value (grad_r0 (fill_style cmd)) = Some r0"
    and "finite_value (grad_r1 (fill_style cmd)) = Some r1"
    and "resolved_stops (grad_stops (fill_style cmd)) = Some stops"
  shows "fillRect_multiply cmd width pixels = Inr pixels"
proof -
  have "map (\<lambda>(m, b).
                 if m mod 4 = 3 then b
                 else (let x = real ((m div 4) mod width) + 1 / 2;
                           y = real ((m div 4) div width) + 1 / 2
                       in if rect_covers cmd x y
                          then paint_white (gradient_alpha cx cy r0 r1 stops x y) b
                          else b))
               (zip [0..<length pixels] pixels)
      = map snd (zip [0..<length pixels] pixels)"
  proof (rule map_cong [OF refl])
    fix z assume z: "z \<in> set (zip [0..<length pixels] pixels)"
    obtain m b where mb: "z = (m, b)" by (cases z)
    have "b \<in> set pixels" using z unfolding mb by (rule set_zip_rightD)
    then have "snd z \<le> 255" using assms(1) by (simp add: mb)
    then show "(case z of (m, b) \<Rightarrow>
                 if m mod 4 = 3 then b
                 else (let x = real ((m div 4) mod width) + 1 / 2;
                           y = real ((m div 4) div width) + 1 / 2
                       in if rect_covers cmd x y
                          then paint_white (gradient_alpha cx cy r0 r1 stops x y) b
                          else b)) = snd z"
      by (cases z) (simp add: Let_def paint_white_id)
  qed
  also have "\<dots> = pixels" by (simp add: map_snd_zip)
  finally show ?thesis
    by (simp add: fillRect_multiply_def Let_def assms(2-6))
qed

text \<open>
  C5.  The vignette attenuates nothing.  For every preset and every frame size the
  request of \<open>applyPeripheralVision\<close> is a fill under \<open>multiply\<close> with a gradient whose three
  stops are white, with the alphas \<open>1\<close>, \<open>1 - peripheralSuppression * 0.4\<close> and
  \<open>1 - peripheralSuppression\<close>.  Multiplying a colour by white gives the colour back, so
  whatever the alpha the composite of the fill with the backdrop is the backdrop: on the
  opaque canvas the fill leaves every byte of every frame as it was, at the centre, at the
  central-field radius and at the half-diagonal alike.  The factor
  \<open>1 - peripheralSuppression\<close> at the half-diagonal is the alpha of the fill there, not an
  attenuation of the image.
\<close>

theorem peripheral_vignette_attenuates_nothing:
  assumes "\<forall>b\<in>set pixels. b \<le> 255"
  shows "fillRect_multiply (applyPeripheralVision p (Fin w) (Fin h)) width pixels = Inr pixels
       \<and> composite_op (applyPeripheralVision p (Fin w) (Fin h)) = ''multiply''
       \<and> grad_stops (fill_style (applyPeripheralVision p (Fin w) (Fin h)))
           = [(Fin 0, Fin 1), (Fin 0.5, Fin (1 - peripheralSuppression p * 0.4)),
              (Fin 1, Fin (1 - peripheralSuppression p))]"
proof -
  obtain v where v: "estimatePixelsPerDegree (Fin w) (Fin h) DEFAULT_CAMERA_HFOV_DEG = Fin v"
    using estimatePixelsPerDegree_default_Fin [of w h] by blast
  note f = applyPeripheralVision_Fin [OF v, of p]
  have "fillRect_multiply (applyPeripheralVision p (Fin w) (Fin h)) width pixels = Inr pixels"
  proof (rule fillRect_multiply_white [OF assms])
    show "finite_value (grad_x0 (fill_style (applyPeripheralVision p (Fin w) (Fin h)))) = Some (w / 2)"
      by (simp add: f)
    show "finite_value (grad_y0 (fill_style (applyPeripheralVision p (Fin w) (Fin h)))) = Some (h / 2)"
      by (simp add: f)
    show "finite_value (grad_r0 (fill_style (applyPeripheralVision p (Fin w) (Fin h))))
        = Some (max 1 (max 1 (centralFieldRadiusDeg p * v) * 0.5))"
      by (simp add: f)
    show "finite_value (grad_r1 (fill_style (applyPeripheralVision p (Fin w) (Fin h))))
        = Some (max (max 1 (centralFieldRadiusDeg p * v)) (sqrt (w * w + h * h) * 0.5))"
      by (simp add: f)
    show "resolved_stops (grad_stops (fill_style (applyPeripheralVision p (Fin w) (Fin h))))
        = Some [(0, clamp01 1), (0.5, clamp01 (1 - peripheralSuppression p * 0.4)),
                (1, clamp01 (1 - peripheralSuppression p))]"
      by (simp add: f)
  qed
  moreover have "composite_op (applyPeripheralVision p (Fin w) (Fin h)) = ''multiply''"
    by (simp add: applyPeripheralVision_def Let_def)
  ultimately show ?thesis using f(5) by simp
qed

theorem peripheral_vignette_attenuates_nothing_witness:
  "list_all (\<lambda>b. b \<le> 255) (concat (replicate (640 * 480) [200, 200, 200, 255::nat]))
   \<and> fillRect_multiply (applyPeripheralVision preset_1 (Fin 640) (Fin 480)) 640
        (concat (replicate (640 * 480) [200, 200, 200, 255]))
      = Inr (concat (replicate (640 * 480) [200, 200, 200, 255]))
   \<and> grad_stops (fill_style (applyPeripheralVision preset_1 (Fin 640) (Fin 480))) ! 2 = (Fin 1, Fin 0.3)"
proof -
  have b: "\<forall>b\<in>set (concat (replicate (640 * 480) [200, 200, 200, 255::nat])). b \<le> 255"
    by (simp add: set_replicate_conv_if)
  have ps: "1 - peripheralSuppression preset_1 = 0.3" by (simp add: preset_1_def)
  show ?thesis
    using peripheral_vignette_attenuates_nothing [OF b, of preset_1 640 480 640] b
    by (simp add: ps list_all_iff)
qed

subsection \<open>The geometry of the gradient\<close>

lemma stop_radius_Fin:
  assumes "grad_r0 g = Fin a" "grad_r1 g = Fin b"
  shows "stop_radius g (Fin t) = Fin (a + t * (b - a))"
  by (simp add: stop_radius_def assms js_sub_def)

text \<open>
  The geometry of the gradient.  With \<open>c = max 1 (centralFieldRadiusDeg * pixelsPerDegree)\<close>
  the central-field radius, the first stop lies on the inner circle of radius
  \<open>r0 = max 1 (c / 2)\<close>, the last stop on the outer circle of radius
  \<open>r1 = max c (half-diagonal)\<close>, and the middle stop halfway between the two, at radius
  \<open>(r0 + r1) / 2\<close>.
\<close>

lemma peripheral_gradient_stops:
  fixes p :: age_preset and w h :: real
  defines "g \<equiv> fill_style (applyPeripheralVision p (Fin w) (Fin h))"
  shows "\<exists>v c r0 r1.
           estimatePixelsPerDegree (Fin w) (Fin h) DEFAULT_CAMERA_HFOV_DEG = Fin v
         \<and> c = max 1 (centralFieldRadiusDeg p * v)
         \<and> centralRadiusPx p (Fin w) (Fin h) = Fin c
         \<and> r0 = max 1 (c * 0.5)
         \<and> r1 = max c (sqrt (w * w + h * h) * 0.5)
         \<and> composite_op (applyPeripheralVision p (Fin w) (Fin h)) = ''multiply''
         \<and> grad_x0 g = Fin (w / 2) \<and> grad_y0 g = Fin (h / 2)
         \<and> grad_x1 g = Fin (w / 2) \<and> grad_y1 g = Fin (h / 2)
         \<and> grad_r0 g = Fin r0 \<and> grad_r1 g = Fin r1
         \<and> grad_stops g = [(Fin 0, Fin 1), (Fin 0.5, Fin (1 - peripheralSuppression p * 0.4)),
                            (Fin 1, Fin (1 - peripheralSuppression p))]
         \<and> stop_radius g (Fin 0) = Fin r0
         \<and> stop_radius g (Fin 0.5) = Fin ((r0 + r1) / 2)
         \<and> stop_radius g (Fin 1) = Fin r1
         \<and> 1 \<le> r0 \<and> r0 \<le> r1"
proof -
  obtain v where v: "estimatePixelsPerDegree (Fin w) (Fin h) DEFAULT_CAMERA_HFOV_DEG = Fin v"
    using estimatePixelsPerDegree_default_Fin [of w h] by blast
  define c where "c = max 1 (centralFieldRadiusDeg p * v)"
  define r0 where "r0 = max 1 (c * 0.5)"
  define r1 where "r1 = max c (sqrt (w * w + h * h) * 0.5)"
  note f = applyPeripheralVision_Fin [OF v, of p, folded c_def g_def]
  have a: "grad_r0 g = Fin r0" using f(2) by (simp add: r0_def)
  have b: "grad_r1 g = Fin r1" using f(3) by (simp add: r1_def)
  have s0: "stop_radius g (Fin 0) = Fin r0" by (simp add: stop_radius_Fin [OF a b])
  have s5: "stop_radius g (Fin 0.5) = Fin ((r0 + r1) / 2)"
    by (simp add: stop_radius_Fin [OF a b] field_simps)
  have s1: "stop_radius g (Fin 1) = Fin r1" by (simp add: stop_radius_Fin [OF a b])
  have op: "composite_op (applyPeripheralVision p (Fin w) (Fin h)) = ''multiply''"
    by (simp add: applyPeripheralVision_def Let_def)
  have c1: "1 \<le> c" by (simp add: c_def)
  have le: "1 \<le> r0" "r0 \<le> r1" using c1 by (simp_all add: r0_def r1_def max_def)
  show ?thesis
    using v c_def f(1) r0_def r1_def op f(4) a b f(5) s0 s5 s1 le by blast
qed

lemma sqrt_640_480: "sqrt (640 * 640 + 480 * 480) = 800"
  by (rule real_sqrt_unique) simp_all

text \<open>
  The middle stop is not at the central-field radius: for a 640 by 480 frame and the
  preset of age 1 the central-field radius is below 107 pixels, while the stop with alpha
  \<open>0.72\<close> lies at a radius above 200 pixels.
\<close>

lemma peripheral_mid_stop_off_central_radius:
  "grad_stops (fill_style (applyPeripheralVision preset_1 (Fin 640) (Fin 480))) ! 1 = (Fin 0.5, Fin 0.72)
   \<and> js_lt (centralRadiusPx preset_1 (Fin 640) (Fin 480)) (Fin 107)
   \<and> js_lt (Fin 200) (stop_radius (fill_style (applyPeripheralVision preset_1 (Fin 640) (Fin 480))) (Fin 0.5))"
proof -
  obtain v where v: "estimatePixelsPerDegree (Fin 640) (Fin 480) DEFAULT_CAMERA_HFOV_DEG = Fin v"
      and v1: "1 \<le> v" and v2: "v \<le> max 1 (640 / 60)"
    using estimatePixelsPerDegree_default_Fin [of 640 480] by blast
  define g where "g = fill_style (applyPeripheralVision preset_1 (Fin 640) (Fin 480))"
  note f = applyPeripheralVision_Fin [OF v, of preset_1, folded g_def]
  have d: "centralFieldRadiusDeg preset_1 = 10" "peripheralSuppression preset_1 = 0.7"
    by (simp_all add: preset_1_def)
  have v3: "v \<le> 32 / 3" using v2 by simp
  have c: "centralRadiusPx preset_1 (Fin 640) (Fin 480) = Fin (10 * v)"
    using f(1) v1 by (simp add: d max_def)
  have a: "grad_r0 g = Fin (5 * v)" using f(2) v1 by (simp add: d max_def)
  have b: "grad_r1 g = Fin 400" using f(3) v1 v3 by (simp add: d sqrt_640_480 max_def)
  have s: "stop_radius g (Fin 0.5) = Fin (5 * v + 0.5 * (400 - 5 * v))"
    by (rule stop_radius_Fin [OF a b])
  have st: "grad_stops g ! 1 = (Fin 0.5, Fin 0.72)" using f(5) by (simp add: d)
  have "js_lt (Fin (10 * v)) (Fin 107)" using v3 by simp
  moreover have "js_lt (Fin 200) (Fin (5 * v + 0.5 * (400 - 5 * v)))"
  proof -
    have "5 * v + 0.5 * (400 - 5 * v) = 200 + 2.5 * v" by (simp add: algebra_simps)
    then have "200 < 5 * v + 0.5 * (400 - 5 * v)" using v1 by simp
    then show ?thesis by (simp only: js_lt.simps)
  qed
  ultimately show ?thesis using st unfolding g_def [symmetric] c s by simp
qed

section \<open>Lateral inhibition switched off\<close>

text \<open>
  C4.  For every pixel buffer and every preset with \<open>lateralInhibition = 0\<close>, the
  Difference-of-Gaussians step of \<open>applyNeuralEffects\<close> returns the buffer unchanged.
\<close>

theorem lateral_inhibition_zero_noop:
  assumes "lateralInhibition preset = 0"
  shows "lateral_inhibition_dog preset width height data = data"
  using assms by (simp add: lateral_inhibition_dog_def)

theorem lateral_inhibition_zero_noop_witness:
  "lateralInhibition (preset_1\<lparr>lateralInhibition := 0\<rparr>) = 0
   \<and> lateral_inhibition_dog (preset_1\<lparr>lateralInhibition := 0\<rparr>) 2 1 [10, 200, 30, 255, 90, 0, 255, 255]
       = [10, 200, 30, 255, 90, 0, 255, 255]"
proof -
  have h: "lateralInhibition (preset_1\<lparr>lateralInhibition := 0\<rparr>) = 0" by simp
  show ?thesis
    using h lateral_inhibition_zero_noop [OF h, of 2 1 "[10, 200, 30, 255, 90, 0, 255, 255]"] by simp
qed

section \<open>Unknown age keys\<close>

lemma applyInfantColorVision_undefined:
  assumes "data \<noteq> []"
  shows "applyInfantColorVision data None age = Inl TypeError"
  using assms by (simp add: applyInfantColorVision_def infant_loop.simps [of None age 0 data])

lemma AGE_PRESETS_unknown:
  assumes "age \<notin> {1, 2, 3}"
  shows "AGE_PRESETS age = None"
  using assms AGE_PRESETS_dom by blast

lemma infant_loop_defined:
  "\<exists>d. infant_loop (Some p) age i data = Inr d \<and> length d = length data"
proof (induction "Some p :: age_preset option" age i data rule: infant_loop.induct)
  case (1 age i data)
  show ?case
  proof (cases "i < length data")
    case False
    then show ?thesis by (simp add: infant_loop.simps [of "Some p" age i data])
  next
    case True
    obtain r' g' b' where px: "infant_pixel p age (data ! i, data ! (i + 1), data ! (i + 2)) = (r', g', b')"
      by (cases "infant_pixel p age (data ! i, data ! (i + 1), data ! (i + 2))") auto
    have "\<exists>d. infant_loop (Some p) age (i + 4) (data[i := r', i + 1 := g', i + 2 := b']) = Inr d
            \<and> length d = length (data[i := r', i + 1 := g', i + 2 := b'])"
      using "1.hyps" [OF True refl px [symmetric] refl] .
    then show ?thesis
      using True px by (simp add: infant_loop.simps [of "Some p" age i data])
  qed
qed

text \<open>
  With an age of the table the same tick runs to completion, so the failure below is due
  to the missing preset alone.
\<close>

lemma processFrame_known_age_completes:
  assumes "selectedAge st \<in> {1, 2, 3}"
    and "outputCtx_available st" "0 < canvas_width st" "0 < canvas_height st" "video_ready st"
    and "drawVideo ops (isMirrored st) (canvas_width st) (canvas_height st) = Some frame"
  shows "fst (processFrame ops st) = Completed"
proof -
  obtain p where p: "AGE_PRESETS (selectedAge st) = Some p"
    using assms(1) AGE_PRESETS_dom by blast
  have inf: "applyInfantColorVision data (Some p) (selectedAge st) \<noteq> Inl e" for data e
    using infant_loop_defined [of p "selectedAge st" 0 data] by (auto simp: applyInfantColorVision_def)
  show ?thesis
    using assms(2-6) p inf by (auto simp: processFrame_def Let_def split: sum.splits)
qed

text \<open>
  C6.  For every integer age key other than 1, 2 and 3, a tick that gets as far as drawing
  the video frame (context available, positive canvas size, video ready, frame drawn)
  fails with an exception instead of applying some preset: \<open>processFrame\<close> throws a
  \<open>TypeError\<close> at the first use of the missing preset, and the canvas then holds the video
  frame as drawn, with no colour processing applied.
\<close>

theorem processFrame_unknown_age_fails:
  assumes "selectedAge st \<notin> {1, 2, 3}"
    and "outputCtx_available st" "0 < canvas_width st" "0 < canvas_height st" "video_ready st"
    and "drawVideo ops (isMirrored st) (canvas_width st) (canvas_height st) = Some frame"
    and "length frame = 4 * nat (canvas_width st) * nat (canvas_height st)"
  shows "fst (processFrame ops st) = Threw TypeError
       \<and> canvas_pixels (snd (processFrame ops st)) = frame"
proof -
  have none: "AGE_PRESETS (selectedAge st) = None"
    using assms(1) by (rule AGE_PRESETS_unknown)
  have "0 < length frame" using assms(3,4,7) by simp
  then have ne: "frame \<noteq> []" by simp
  show ?thesis
    using assms(2-6) none applyInfantColorVision_undefined [OF ne]
    by (simp add: processFrame_def Let_def)
qed


theorem processFrame_unknown_age_fails_witness:
  "fst (processFrame
          \<lparr>drawVideo = (\<lambda>m w h. Some [200, 10, 10, 255]), drawFiltered = (\<lambda>b c px. px),
            fillRect = (\<lambda>c px. px)\<rparr>
          \<lparr>outputCtx_available = True, canvas_width = 1, canvas_height = 1, video_ready = True,
            selectedAge = 5, isMirrored = True, enablePeripheralBlend = True, frameCount = 0,
            canvas_pixels = []\<rparr>) = Threw TypeError
   \<and> fst (processFrame
          \<lparr>drawVideo = (\<lambda>m w h. Some [200, 10, 10, 255]), drawFiltered = (\<lambda>b c px. px),
            fillRect = (\<lambda>c px. px)\<rparr>
          \<lparr>outputCtx_available = True, canvas_width = 1, canvas_height = 1, video_ready = True,
            selectedAge = 0, isMirrored = True, enablePeripheralBlend = True, frameCount = 0,
            canvas_pixels = []\<rparr>) = Threw TypeError"
proof -
  let ?ops = "\<lparr>drawVideo = (\<lambda>m w h. Some [200, 10, 10, 255]), drawFiltered = (\<lambda>b c px. px),
            fillRect = (\<lambda>c px. px)\<rparr> :: canvas_ops"
  let ?st = "\<lambda>a. \<lparr>outputCtx_available = True, canvas_width = 1, canvas_height = 1, video_ready = True,
            selectedAge = a, isMirrored = True, enablePeripheralBlend = True, frameCount = 0,
            canvas_pixels = []\<rparr>"
  have "fst (processFrame ?ops (?st 5)) = Threw TypeError"
    using processFrame_unknown_age_fails [of "?st 5" ?ops "[200, 10, 10, 255]"] by simp
  moreover have "fst (processFrame ?ops (?st 0)) = Threw TypeError"
    using processFrame_unknown_age_fails [of "?st 0" ?ops "[200, 10, 10, 255]"] by simp
  ultimately show ?thesis by simp
qed

end
